theory Spec2Isabelle
  imports Complex_Main "HOL-Library.Word" "HOL-Library.Log_Nat"
    "HOL-Library.Char_ord" "HOL-Library.List_Lexorder" "HOL-Library.AList"
begin

section \<open>JavaScript values used by the backend\<close>

text \<open>
  The backend is \<^verbatim>\<open>src/backend/src/index.ts\<close>, with the schema of its database in
  \<^verbatim>\<open>db.ts\<close>. Strings are modelled as
  \<^typ>\<open>string\<close>: one \<^typ>\<open>char\<close> per code unit, restricted to the code units
  \<open>0x00\<close> to \<open>0xFF\<close>. A byte of a \<^verbatim>\<open>Buffer\<close> is an \<^typ>\<open>8 word\<close>.
  An exception is a value of \<open>js_error\<close> on the left of a sum.
\<close>

type_synonym byte = "8 word"

datatype js_error = TypeError | RangeError

text \<open>
  \<^verbatim>\<open>String.prototype.trim\<close> strips white space and line terminators from both
  ends. Within the modelled code units these are TAB, LF, VT, FF, CR, SP and NBSP.
\<close>

definition isWhiteSpace :: "char \<Rightarrow> bool" where
  "isWhiteSpace c \<longleftrightarrow>
     c \<in> set [CHR 0x09, CHR 0x0A, CHR 0x0B, CHR 0x0C, CHR 0x0D, CHR 0x20, CHR 0xA0]"

definition trim :: "string \<Rightarrow> string" where
  "trim s = rev (dropWhile isWhiteSpace (rev (dropWhile isWhiteSpace s)))"

text \<open>
  \<^verbatim>\<open>String.prototype.toLowerCase\<close> on the modelled code units: \<open>A\<close> to \<open>Z\<close>, and
  the Latin-1 capitals \<open>0xC0\<close> to \<open>0xDE\<close> without the multiplication sign \<open>0xD7\<close>,
  move up by \<open>0x20\<close>.
\<close>

definition lowerChar :: "char \<Rightarrow> char" where
  "lowerChar c =
     (let n = (of_char c :: nat) in
      if (65 \<le> n \<and> n \<le> 90) \<or> (192 \<le> n \<and> n \<le> 222 \<and> n \<noteq> 215)
      then char_of (n + 32) else c)"

definition toLowerCase :: "string \<Rightarrow> string" where
  "toLowerCase s = map lowerChar s"

text \<open>\<^verbatim>\<open>s.split(sep)\<close> for a one-character separator: \<^verbatim>\<open>"".split("$")\<close> is \<^verbatim>\<open>[""]\<close>.\<close>

fun split :: "char \<Rightarrow> string \<Rightarrow> string list" where
  "split sep [] = [[]]"
| "split sep (c # cs) =
     (if c = sep then [] # split sep cs
      else (case split sep cs of
              [] \<Rightarrow> [[c]]
            | p # ps \<Rightarrow> (c # p) # ps))"

text \<open>
  \<^verbatim>\<open>s.startsWith(p)\<close>. For \<open>n \<ge> 0\<close>, \<^verbatim>\<open>s.slice(n)\<close> is \<open>drop n s\<close> and
  \<^verbatim>\<open>s.slice(0, n)\<close> is \<open>take n s\<close>.
\<close>

fun startsWith :: "string \<Rightarrow> string \<Rightarrow> bool" where
  "startsWith s [] = True"
| "startsWith [] (p # ps) = False"
| "startsWith (c # cs) (p # ps) = (c = p \<and> startsWith cs ps)"

subsection \<open>Hexadecimal rendering of buffers\<close>

definition hexDigit :: "nat \<Rightarrow> char" where
  "hexDigit n = (''0123456789abcdef'' ! (n mod 16))"

definition hexByte :: "byte \<Rightarrow> string" where
  "hexByte b = [hexDigit (unat b div 16), hexDigit (unat b mod 16)]"

text \<open>\<^verbatim>\<open>buf.toString("hex")\<close>: two lower-case digits per byte.\<close>

definition toHex :: "byte list \<Rightarrow> string" where
  "toHex bs = concat (map hexByte bs)"

definition unhex :: "char \<Rightarrow> nat option" where
  "unhex c =
     (let n = (of_char c :: nat) in
      if 48 \<le> n \<and> n \<le> 57 then Some (n - 48)
      else if 97 \<le> n \<and> n \<le> 102 then Some (n - 87)
      else if 65 \<le> n \<and> n \<le> 70 then Some (n - 55)
      else None)"

text \<open>
  \<^verbatim>\<open>Buffer.from(s, "hex")\<close>: pairs of hexadecimal digits are decoded until the first
  pair that is not one; a trailing single character is dropped.
\<close>

fun fromHex :: "string \<Rightarrow> byte list" where
  "fromHex (a # b # cs) =
     (case (unhex a, unhex b) of
        (Some x, Some y) \<Rightarrow> (of_nat (16 * x + y)) # fromHex cs
      | _ \<Rightarrow> [])"
| "fromHex cs = []"

subsection \<open>Numbers and \<^verbatim>\<open>Number(string)\<close>\<close>

text \<open>
  A JavaScript number is NaN, an infinity, or a finite binary64 value, which is read as
  the rational it denotes (the sign of zero is not kept).
\<close>

datatype jsnum = NaN | PosInfinity | NegInfinity | Finite rat

fun isFinite :: "jsnum \<Rightarrow> bool" where
  "isFinite (Finite q) = True"
| "isFinite n = False"

definition pow2 :: "int \<Rightarrow> rat" where
  "pow2 e = (if 0 \<le> e then 2 ^ nat e else 1 / 2 ^ nat (- e))"

text \<open>\<open>ilog2 a\<close> is the integer \<open>e\<close> with \<open>2\<^sup>e \<le> a < 2\<^sup>e\<^sup>+\<^sup>1\<close>, for \<open>a > 0\<close>.\<close>

definition ilog2 :: "rat \<Rightarrow> int" where
  "ilog2 a = (if 1 \<le> a then bitlen \<lfloor>a\<rfloor> - 1 else - bitlen (\<lceil>1 / a\<rceil> - 1))"

definition roundHalfEven :: "rat \<Rightarrow> int" where
  "roundHalfEven r =
     (let f = \<lfloor>r\<rfloor>; d = r - of_int f in
      if d < 1 / 2 then f
      else if 1 / 2 < d then f + 1
      else if even f then f else f + 1)"

text \<open>
  The Number value of a mathematical value: round to nearest binary64, ties to even,
  with 53 significant bits, the least exponent \<open>-1022\<close>, and overflow to infinity.
\<close>

definition toDouble :: "rat \<Rightarrow> jsnum" where
  "toDouble q =
     (if q = 0 then Finite 0
      else
        let a = \<bar>q\<bar>;
            e = max (ilog2 a) (- 1022);
            u = pow2 (e - 52);
            r = of_int (roundHalfEven (a / u)) * u
        in if pow2 1024 \<le> r then (if q < 0 then NegInfinity else PosInfinity)
           else Finite (if q < 0 then - r else r))"

definition isDigit :: "char \<Rightarrow> bool" where
  "isDigit c \<longleftrightarrow> 48 \<le> (of_char c :: nat) \<and> (of_char c :: nat) \<le> 57"

definition digitsValue :: "nat \<Rightarrow> string \<Rightarrow> nat" where
  "digitsValue base ds =
     foldl (\<lambda>acc c. base * acc + (case unhex c of None \<Rightarrow> 0 | Some v \<Rightarrow> v)) 0 ds"

definition isDigitOf :: "nat \<Rightarrow> char \<Rightarrow> bool" where
  "isDigitOf base c = (case unhex c of None \<Rightarrow> False | Some v \<Rightarrow> v < base)"

text \<open>The exponent part \<^verbatim>\<open>e[+-]digits\<close> of a decimal literal, or nothing.\<close>

definition exponentPart :: "string \<Rightarrow> int option" where
  "exponentPart s =
     (case s of
        [] \<Rightarrow> Some 0
      | c # r \<Rightarrow>
          if c = CHR ''e'' \<or> c = CHR ''E'' then
            (let (neg, ds) = (case r of
                               x # r' \<Rightarrow> if x = CHR ''-'' then (True, r')
                                         else if x = CHR ''+'' then (False, r')
                                         else (False, r)
                             | [] \<Rightarrow> (False, r))
             in if ds \<noteq> [] \<and> list_all isDigit ds
                then Some (if neg then - int (digitsValue 10 ds) else int (digitsValue 10 ds))
                else None)
          else None)"

text \<open>
  \<^verbatim>\<open>StrUnsignedDecimalLiteral\<close> without \<^verbatim>\<open>Infinity\<close>: \<^verbatim>\<open>digits[.digits][exp]\<close>,
  \<^verbatim>\<open>digits.[exp]\<close> or \<^verbatim>\<open>.digits[exp]\<close>; the result is its mathematical value.
\<close>

definition unsignedDecimal :: "string \<Rightarrow> rat option" where
  "unsignedDecimal s =
     (let ip = takeWhile isDigit s;
          r1 = dropWhile isDigit s;
          (fp, r2) = (case r1 of
                        c # r \<Rightarrow> if c = CHR ''.'' then (takeWhile isDigit r, dropWhile isDigit r)
                                 else ([], r1)
                      | [] \<Rightarrow> ([], r1))
      in if ip = [] \<and> fp = [] then None
         else (case exponentPart r2 of
                 None \<Rightarrow> None
               | Some ex \<Rightarrow>
                   Some ((of_nat (digitsValue 10 ip)
                            + of_nat (digitsValue 10 fp) / 10 ^ length fp)
                         * (if 0 \<le> ex then 10 ^ nat ex else 1 / 10 ^ nat (- ex)))))"

text \<open>\<^verbatim>\<open>0x\<close>, \<^verbatim>\<open>0o\<close> and \<^verbatim>\<open>0b\<close> literals: unsigned, with at least one digit.\<close>

definition nonDecimal :: "string \<Rightarrow> rat option" where
  "nonDecimal s =
     (case s of
        z # k # ds \<Rightarrow>
          (let base = (if k = CHR ''x'' \<or> k = CHR ''X'' then 16
                       else if k = CHR ''o'' \<or> k = CHR ''O'' then 8
                       else if k = CHR ''b'' \<or> k = CHR ''B'' then 2
                       else (0::nat))
           in if z = CHR ''0'' \<and> base \<noteq> 0 \<and> ds \<noteq> [] \<and> list_all (isDigitOf base) ds
              then Some (of_nat (digitsValue base ds)) else None)
      | _ \<Rightarrow> None)"

text \<open>
  \<^verbatim>\<open>Number(s)\<close> for a string \<open>s\<close> (StringToNumber): white space is trimmed, the empty
  string is \<open>0\<close>, and a string that is no numeric literal is NaN.
\<close>

definition Number :: "string \<Rightarrow> jsnum" where
  "Number s =
     (let t = trim s in
      if t = [] then Finite 0
      else (case nonDecimal t of
              Some v \<Rightarrow> toDouble v
            | None \<Rightarrow>
                (let (neg, u) = (case t of
                                  c # r \<Rightarrow> if c = CHR ''-'' then (True, r)
                                           else if c = CHR ''+'' then (False, r)
                                           else (False, t)
                                | [] \<Rightarrow> (False, t))
                 in if u = ''Infinity'' then (if neg then NegInfinity else PosInfinity)
                    else (case unsignedDecimal u of
                            None \<Rightarrow> NaN
                          | Some v \<Rightarrow> toDouble (if neg then - v else v)))))"

section \<open>Password codec\<close>

text \<open>
  \<^verbatim>\<open>crypto.pbkdf2Sync(password, salt, iterations, keylen, digest)\<close> of Node.js first
  validates its arguments: \<^verbatim>\<open>validateInt32(iterations, "iterations", 1)\<close> throws a
  RangeError unless the number is an integer from \<open>1\<close> to \<open>2\<^sup>3\<^sup>1 - 1\<close>. The native
  key derivation that runs afterwards is the parameter \<open>K\<close>; it throws a TypeError
  for a digest name the OpenSSL build does not know.
\<close>

type_synonym kdf = "string \<Rightarrow> string \<Rightarrow> nat \<Rightarrow> nat \<Rightarrow> string \<Rightarrow> js_error + byte list"

fun validateInt32 :: "jsnum \<Rightarrow> int \<Rightarrow> js_error + int" where
  "validateInt32 (Finite q) lo =
     (if of_int \<lfloor>q\<rfloor> \<noteq> q then Inl RangeError
      else if \<lfloor>q\<rfloor> < lo \<or> 2147483647 < \<lfloor>q\<rfloor> then Inl RangeError
      else Inr \<lfloor>q\<rfloor>)"
| "validateInt32 n lo = Inl RangeError"

definition pbkdf2Sync :: "kdf \<Rightarrow> string \<Rightarrow> string \<Rightarrow> jsnum \<Rightarrow> nat \<Rightarrow> string \<Rightarrow> js_error + byte list" where
  "pbkdf2Sync K password salt iterations keylen digest =
     (case validateInt32 iterations 1 of
        Inl e \<Rightarrow> Inl e
      | Inr n \<Rightarrow> K password salt (nat n) keylen digest)"

definition PBKDF2_ITER :: nat where
  "PBKDF2_ITER = 120000"

definition KEYLEN :: nat where
  "KEYLEN = 32"

definition DIGEST :: string where
  "DIGEST = ''sha256''"

text \<open>
  \<^verbatim>\<open>hashPassword\<close>: \<open>rnd\<close> is the result of \<^verbatim>\<open>crypto.randomBytes(16)\<close>. The template
  literal renders \<^verbatim>\<open>PBKDF2_ITER\<close> as \<^verbatim>\<open>120000\<close>.
\<close>

definition hashPassword :: "kdf \<Rightarrow> byte list \<Rightarrow> string \<Rightarrow> js_error + string" where
  "hashPassword K rnd password =
     (let salt = toHex rnd in
      case pbkdf2Sync K password salt (Finite (of_nat PBKDF2_ITER)) KEYLEN DIGEST of
        Inl e \<Rightarrow> Inl e
      | Inr h \<Rightarrow> Inr (''pbkdf2$'' @ DIGEST @ ''$120000$'' @ salt @ ''$'' @ toHex h))"

text \<open>
  \<^verbatim>\<open>verifyPassword\<close>: the first of the five fields is not inspected. The second guard
  refuses an empty digest, salt or hash and an iteration field that is not a finite
  number. \<^verbatim>\<open>crypto.timingSafeEqual\<close> on buffers of equal length is equality.
\<close>

definition verifyPassword :: "kdf \<Rightarrow> string \<Rightarrow> string \<Rightarrow> js_error + bool" where
  "verifyPassword K password stored =
     (case split CHR ''$'' stored of
        [p0, digest, iterStr, salt, hashHex] \<Rightarrow>
          (let iter = Number iterStr in
           if digest = [] \<or> salt = [] \<or> hashHex = [] \<or> \<not> isFinite iter then Inr False
           else (case pbkdf2Sync K password salt iter KEYLEN digest of
                   Inl e \<Rightarrow> Inl e
                 | Inr calc \<Rightarrow>
                     (let storedBuf = fromHex hashHex in
                      if length storedBuf \<noteq> length calc then Inr False
                      else Inr (calc = storedBuf))))
      | _ \<Rightarrow> Inr False)"

text \<open>\<^verbatim>\<open>makeToken(bytes)\<close>: \<open>rnd\<close> is the result of \<^verbatim>\<open>crypto.randomBytes(bytes)\<close>.\<close>

definition makeToken :: "byte list \<Rightarrow> string" where
  "makeToken rnd = toHex rnd"

section \<open>Responses\<close>

text \<open>
  \<^verbatim>\<open>sendJson(res, status, obj)\<close> is the pair of the status and the shape of the JSON
  body. \<open>Caught e\<close> is the body \<^verbatim>\<open>{error: err.message}\<close> that the router's outer
  \<^verbatim>\<open>catch\<close> sends with status 500.
\<close>

datatype body =
    ErrorBody string
  | Caught js_error
  | Success
  | SuccessReset string int
  | SuccessTheme string

type_synonym response = "nat \<times> body"

record request =
  meth :: string
  authorization :: "string option"

section \<open>Session registry\<close>

text \<open>\<^verbatim>\<open>const sessions = new Map<string, number>()\<close>: token to user id.\<close>

type_synonym sessions = "string \<rightharpoonup> int"

definition getAuthToken :: "request \<Rightarrow> string" where
  "getAuthToken req =
     (let auth = (case authorization req of None \<Rightarrow> [] | Some a \<Rightarrow> a) in
      if \<not> startsWith auth ''Bearer '' then [] else trim (drop 7 auth))"

text \<open>
  \<^verbatim>\<open>requireAuth\<close> answers 401 when the token is empty or \<^verbatim>\<open>sessions.get(token)\<close> is
  falsy: \<^verbatim>\<open>undefined\<close> or the number \<open>0\<close>.
\<close>

definition requireAuth :: "sessions \<Rightarrow> request \<Rightarrow> response + int" where
  "requireAuth ss req =
     (let token = getAuthToken req in
      case ss token of
        None \<Rightarrow> Inl (401, ErrorBody ''Unauthorized'')
      | Some userId \<Rightarrow>
          if token = [] \<or> userId = 0 then Inl (401, ErrorBody ''Unauthorized'')
          else Inr userId)"

text \<open>
  Issuing a session, as the register and login handlers do it:
  \<^verbatim>\<open>const token = makeToken(); sessions.set(token, userId)\<close>.
\<close>

definition issue :: "sessions \<Rightarrow> byte list \<Rightarrow> int \<Rightarrow> string \<times> sessions" where
  "issue ss rnd userId = (let token = makeToken rnd in (token, ss(token \<mapsto> userId)))"

text \<open>\<^verbatim>\<open>POST /auth/logout\<close>.\<close>

definition logout :: "sessions \<Rightarrow> request \<Rightarrow> response \<times> sessions" where
  "logout ss req =
     (if meth req \<noteq> ''POST'' then ((405, ErrorBody ''Method not allowed''), ss)
      else
        let token = getAuthToken req in
        ((200, Success), if token \<noteq> [] then ss(token := None) else ss))"

section \<open>Users and the reset-token flow\<close>

text \<open>
  The table \<^verbatim>\<open>users\<close> of \<^verbatim>\<open>db.ts\<close> (\<^verbatim>\<open>id INTEGER PRIMARY KEY AUTOINCREMENT\<close>,
  \<^verbatim>\<open>email TEXT NOT NULL UNIQUE\<close>, \<^verbatim>\<open>name\<close>, \<^verbatim>\<open>password_hash\<close>, \<^verbatim>\<open>theme\<close>,
  \<^verbatim>\<open>reset_token TEXT\<close>, \<^verbatim>\<open>reset_expires INTEGER\<close>) is the list of its rows; a
  nullable column is an option. \<^verbatim>\<open>SELECT ... WHERE email=?\<close> with \<^verbatim>\<open>.get\<close> returns the
  first matching row, and \<^verbatim>\<open>UPDATE ... WHERE id=?\<close> rewrites every row with that id in
  one statement. The model does not rely on the uniqueness of \<^verbatim>\<open>id\<close> and \<^verbatim>\<open>email\<close>.
\<close>

record user =
  uid :: int
  email :: string
  uname :: string
  password_hash :: string
  theme :: string
  reset_token :: "string option"
  reset_expires :: "int option"

definition getByEmail :: "user list \<Rightarrow> string \<Rightarrow> user option" where
  "getByEmail db e = find (\<lambda>u. email u = e) db"

definition updateById :: "user list \<Rightarrow> int \<Rightarrow> (user \<Rightarrow> user) \<Rightarrow> user list" where
  "updateById db i f = map (\<lambda>u. if uid u = i then f u else u) db"

text \<open>\<^verbatim>\<open>String(body?.field || "")\<close> for a field that is a string or absent.\<close>

definition orEmpty :: "string option \<Rightarrow> string" where
  "orEmpty v = (case v of None \<Rightarrow> [] | Some s \<Rightarrow> s)"

text \<open>
  \<^verbatim>\<open>POST /auth/request-reset\<close>: \<open>rnd\<close> is \<^verbatim>\<open>crypto.randomBytes(16)\<close>, \<open>now\<close> is
  \<^verbatim>\<open>Date.now()\<close>. The log line is not modelled.
\<close>

definition requestReset ::
  "user list \<Rightarrow> byte list \<Rightarrow> int \<Rightarrow> request \<Rightarrow> string option \<Rightarrow> response \<times> user list" where
  "requestReset db rnd now req bodyEmail =
     (if meth req \<noteq> ''POST'' then ((405, ErrorBody ''Method not allowed''), db)
      else
        let em = toLowerCase (trim (orEmpty bodyEmail)) in
        if em = [] then ((400, ErrorBody ''email is required''), db)
        else (case getByEmail db em of
                None \<Rightarrow> ((200, Success), db)
              | Some u \<Rightarrow>
                  (let resetToken = makeToken rnd;
                       expires = now + 15 * 60 * 1000
                   in ((200, SuccessReset resetToken expires),
                       updateById db (uid u)
                         (\<lambda>r. r\<lparr>reset_token := Some resetToken, reset_expires := Some expires\<rparr>)))))"

text \<open>
  \<^verbatim>\<open>POST /auth/reset\<close> from the row lookup on (lines 292 to 309): \<open>em\<close>,
  \<open>resetToken\<close> and \<open>newPassword\<close> are the normalised body fields. A stored token
  that is \<^verbatim>\<open>NULL\<close> or empty and an expiry that is \<^verbatim>\<open>NULL\<close> or \<open>0\<close> are falsy. An
  exception of \<^verbatim>\<open>hashPassword\<close> reaches the router's \<^verbatim>\<open>catch\<close>.
\<close>

definition consume ::
  "kdf \<Rightarrow> byte list \<Rightarrow> int \<Rightarrow> user list \<Rightarrow> string \<Rightarrow> string \<Rightarrow> string \<Rightarrow> response \<times> user list" where
  "consume K rnd now db em resetToken newPassword =
     (case getByEmail db em of
        None \<Rightarrow> ((400, ErrorBody ''reset not requested''), db)
      | Some row \<Rightarrow>
          (case (reset_token row, reset_expires row) of
             (Some tok, Some ex) \<Rightarrow>
               if tok = [] \<or> ex = 0 then ((400, ErrorBody ''reset not requested''), db)
               else if tok \<noteq> resetToken then ((400, ErrorBody ''invalid token''), db)
               else if now > ex then ((400, ErrorBody ''token expired''), db)
               else (case hashPassword K rnd newPassword of
                       Inl e \<Rightarrow> ((500, Caught e), db)
                     | Inr h \<Rightarrow>
                         ((200, Success),
                          updateById db (uid row)
                            (\<lambda>r. r\<lparr>password_hash := h, reset_token := None,
                                    reset_expires := None\<rparr>)))
           | _ \<Rightarrow> ((400, ErrorBody ''reset not requested''), db)))"

record reset_body =
  rb_email :: "string option"
  rb_resetToken :: "string option"
  rb_newPassword :: "string option"

text \<open>The whole handler: method check, normalisation of the body, validation, consume.\<close>

definition resetHandler ::
  "kdf \<Rightarrow> byte list \<Rightarrow> int \<Rightarrow> user list \<Rightarrow> request \<Rightarrow> reset_body \<Rightarrow> response \<times> user list" where
  "resetHandler K rnd now db req b =
     (if meth req \<noteq> ''POST'' then ((405, ErrorBody ''Method not allowed''), db)
      else
        let em = toLowerCase (trim (orEmpty (rb_email b)));
            resetToken = trim (orEmpty (rb_resetToken b));
            newPassword = orEmpty (rb_newPassword b)
        in if em = [] \<or> resetToken = [] \<or> newPassword = []
           then ((400, ErrorBody ''email, resetToken, newPassword required''), db)
           else if length newPassword < 6
           then ((400, ErrorBody ''newPassword must be at least 6 characters''), db)
           else consume K rnd now db em resetToken newPassword)"

section \<open>Theme preference\<close>

text \<open>
  \<^verbatim>\<open>PUT /me/theme\<close>: authentication comes before the method check. The body is a
  JSON object whose \<^verbatim>\<open>theme\<close> field is a string or absent;
  \<^verbatim>\<open>String(body?.theme || "system")\<close> replaces an absent or empty field.
\<close>

definition themeHandler ::
  "sessions \<Rightarrow> user list \<Rightarrow> request \<Rightarrow> string option \<Rightarrow> response \<times> user list" where
  "themeHandler ss db req bodyTheme =
     (case requireAuth ss req of
        Inl r \<Rightarrow> (r, db)
      | Inr userId \<Rightarrow>
          if meth req \<noteq> ''PUT'' then ((405, ErrorBody ''Method not allowed''), db)
          else
            let th = (case bodyTheme of
                        None \<Rightarrow> ''system''
                      | Some t \<Rightarrow> if t = [] then ''system'' else t)
            in if th \<notin> set [''system'', ''light'', ''dark'']
               then ((400, ErrorBody ''theme must be system|light|dark''), db)
               else ((200, SuccessTheme th), updateById db userId (\<lambda>r. r\<lparr>theme := th\<rparr>)))"

section \<open>Forecast aggregation\<close>

text \<open>
  A sample of the provider's list as the handler reads it: \<^verbatim>\<open>dt_txt\<close>,
  \<^verbatim>\<open>main.temp_min\<close>, \<^verbatim>\<open>main.temp_max\<close>, \<^verbatim>\<open>main.temp\<close> and the first entry of
  \<^verbatim>\<open>weather\<close>; every field may be absent. A temperature is a finite number, read as
  the rational it denotes; \<^verbatim>\<open>Math.min\<close> and \<^verbatim>\<open>Math.max\<close> are exact on such numbers.
\<close>

record main_t =
  temp_min :: "rat option"
  temp_max :: "rat option"
  temp :: "rat option"

record weather_t =
  description :: "string option"
  icon :: "string option"

record sample =
  dt_txt :: "string option"
  main :: "main_t option"
  weather :: "weather_t list option"

record bucket =
  min_b :: rat
  max_b :: rat
  descriptions :: "string list"
  icons :: "string list"

record ForecastDay =
  date :: string
  min_f :: jsnum
  max_f :: jsnum
  description_f :: string
  icon_f :: string

text \<open>
  \<^verbatim>\<open>byDay\<close> is an object literal \<^verbatim>\<open>{}\<close>: its own properties are the buckets, in
  insertion order, and a key it does not own is looked up in \<^verbatim>\<open>Object.prototype\<close>.
\<close>

type_synonym byDay = "(string \<times> bucket) list"

definition objectPrototypeKeys :: "string list" where
  "objectPrototypeKeys =
     [''constructor'', ''__defineGetter__'', ''__defineSetter__'', ''hasOwnProperty'',
      ''__lookupGetter__'', ''__lookupSetter__'', ''isPrototypeOf'',
      ''propertyIsEnumerable'', ''toString'', ''valueOf'', ''__proto__'',
      ''toLocaleString'']"

datatype slot = Undefined | Inherited | Own bucket

definition getProp :: "byDay \<Rightarrow> string \<Rightarrow> slot" where
  "getProp byDay k =
     (case map_of byDay k of
        Some b \<Rightarrow> Own b
      | None \<Rightarrow> if k \<in> set objectPrototypeKeys then Inherited else Undefined)"

text \<open>\<^verbatim>\<open>Number(item.main?.temp_min ?? item.main?.temp ?? 0)\<close>, and the same for the maximum.\<close>

definition tminOf :: "sample \<Rightarrow> rat" where
  "tminOf item =
     (case main item of
        None \<Rightarrow> 0
      | Some m \<Rightarrow> (case temp_min m of
                     Some v \<Rightarrow> v
                   | None \<Rightarrow> (case temp m of Some v \<Rightarrow> v | None \<Rightarrow> 0)))"

definition tmaxOf :: "sample \<Rightarrow> rat" where
  "tmaxOf item =
     (case main item of
        None \<Rightarrow> 0
      | Some m \<Rightarrow> (case temp_max m of
                     Some v \<Rightarrow> v
                   | None \<Rightarrow> (case temp m of Some v \<Rightarrow> v | None \<Rightarrow> 0)))"

text \<open>\<^verbatim>\<open>String(item.weather?.[0]?.description || "")\<close>, and the same for the icon.\<close>

definition descOf :: "sample \<Rightarrow> string" where
  "descOf item =
     (case weather item of
        None \<Rightarrow> []
      | Some ws \<Rightarrow> (case ws of [] \<Rightarrow> [] | w # r \<Rightarrow> orEmpty (description w)))"

definition iconOf :: "sample \<Rightarrow> string" where
  "iconOf item =
     (case weather item of
        None \<Rightarrow> []
      | Some ws \<Rightarrow> (case ws of [] \<Rightarrow> [] | w # r \<Rightarrow> orEmpty (icon w)))"

text \<open>\<^verbatim>\<open>(item.dt_txt || "").slice(0, 10)\<close>.\<close>

definition dateKeyOf :: "sample \<Rightarrow> string" where
  "dateKeyOf item = take 10 (orEmpty (dt_txt item))"

text \<open>
  \<^verbatim>\<open>byDay[dateKey].descriptions.push(desc)\<close>: on an inherited property, a function or
  \<^verbatim>\<open>Object.prototype\<close> itself, \<^verbatim>\<open>descriptions\<close> is \<^verbatim>\<open>undefined\<close> and the call throws.
\<close>

definition pushDescription :: "byDay \<Rightarrow> string \<Rightarrow> string \<Rightarrow> js_error + byDay" where
  "pushDescription byDay k d =
     (case getProp byDay k of
        Own b \<Rightarrow> Inr (AList.update k (b\<lparr>descriptions := descriptions b @ [d]\<rparr>) byDay)
      | _ \<Rightarrow> Inl TypeError)"

definition pushIcon :: "byDay \<Rightarrow> string \<Rightarrow> string \<Rightarrow> js_error + byDay" where
  "pushIcon byDay k i =
     (case getProp byDay k of
        Own b \<Rightarrow> Inr (AList.update k (b\<lparr>icons := icons b @ [i]\<rparr>) byDay)
      | _ \<Rightarrow> Inl TypeError)"

text \<open>
  One turn of the loop over the samples. When the key is inherited, the \<^verbatim>\<open>else\<close>
  branch assigns \<^verbatim>\<open>min\<close> and \<^verbatim>\<open>max\<close> on the inherited object, which leaves the own
  properties of \<^verbatim>\<open>byDay\<close> as they are.
\<close>

definition addSample :: "byDay \<Rightarrow> sample \<Rightarrow> js_error + byDay" where
  "addSample byDay item =
     (let dateKey = dateKeyOf item in
      if dateKey = [] then Inr byDay
      else
        let tmin = tminOf item;
            tmax = tmaxOf item;
            desc = descOf item;
            ic = iconOf item;
            byDay1 = (case getProp byDay dateKey of
                        Undefined \<Rightarrow>
                          AList.update dateKey
                            \<lparr>min_b = tmin, max_b = tmax, descriptions = [], icons = []\<rparr> byDay
                      | Own b \<Rightarrow>
                          AList.update dateKey
                            (b\<lparr>min_b := min (min_b b) tmin, max_b := max (max_b b) tmax\<rparr>) byDay
                      | Inherited \<Rightarrow> byDay)
        in case (if desc \<noteq> [] then pushDescription byDay1 dateKey desc else Inr byDay1) of
             Inl e \<Rightarrow> Inl e
           | Inr byDay2 \<Rightarrow> if ic \<noteq> [] then pushIcon byDay2 dateKey ic else Inr byDay2)"

fun addSamples :: "byDay \<Rightarrow> sample list \<Rightarrow> js_error + byDay" where
  "addSamples byDay [] = Inr byDay"
| "addSamples byDay (item # items) =
     (case addSample byDay item of
        Inl e \<Rightarrow> Inl e
      | Inr byDay' \<Rightarrow> addSamples byDay' items)"

text \<open>
  \<^verbatim>\<open>a * b\<close> and \<^verbatim>\<open>a / b\<close> on finite numbers are the exact product and quotient
  rounded to binary64. The division is used with a positive finite divisor, for which
  NaN and the infinities stay as they are.
\<close>

definition jsTimes :: "rat \<Rightarrow> rat \<Rightarrow> jsnum" where
  "jsTimes a b = toDouble (a * b)"

fun jsDivide :: "jsnum \<Rightarrow> rat \<Rightarrow> jsnum" where
  "jsDivide (Finite q) d = toDouble (q / d)"
| "jsDivide n d = n"

text \<open>
  \<^verbatim>\<open>Math.round\<close> gives the integer nearest to a finite number, and of two nearest
  integers the one towards \<open>+\<infinity>\<close>; NaN and the infinities stay as they are.
\<close>

fun mathRound :: "jsnum \<Rightarrow> jsnum" where
  "mathRound (Finite q) = Finite (of_int \<lfloor>q + 1 / 2\<rfloor>)"
| "mathRound n = n"

text \<open>\<^verbatim>\<open>Math.round(x * 10) / 10\<close>.\<close>

definition round1 :: "rat \<Rightarrow> jsnum" where
  "round1 x = jsDivide (mathRound (jsTimes x 10)) 10"

definition forecastDay :: "string \<Rightarrow> bucket \<Rightarrow> ForecastDay" where
  "forecastDay d day =
     \<lparr>date = d,
      min_f = round1 (min_b day),
      max_f = round1 (max_b day),
      description_f = (case descriptions day of [] \<Rightarrow> [] | x # r \<Rightarrow> x),
      icon_f = (case icons day of [] \<Rightarrow> [] | x # r \<Rightarrow> x)\<rparr>"

text \<open>
  The aggregation of \<^verbatim>\<open>GET /api/forecast\<close> on \<^verbatim>\<open>data.list || []\<close>:
  \<^verbatim>\<open>Object.keys(byDay).sort().slice(0, 6)\<close>, then one day per key that has a bucket.
\<close>

definition aggregate :: "sample list \<Rightarrow> js_error + ForecastDay list" where
  "aggregate samples =
     (case addSamples [] samples of
        Inl e \<Rightarrow> Inl e
      | Inr byDay \<Rightarrow>
          (let days = take 6 (sort (map fst byDay)) in
           Inr (concat (map (\<lambda>d. case map_of byDay d of
                                   None \<Rightarrow> []
                                 | Some day \<Rightarrow> [forecastDay d day]) days))))"

section \<open>Notions used to state the properties\<close>

text \<open>
  The samples of one date key, in input order, and the bucket that the loop holds for
  that key once it has run over \<open>xs\<close>: the least minimum and the greatest maximum
  candidate, and the non-empty descriptions and icons in input order.
\<close>

definition sameDay :: "string \<Rightarrow> sample list \<Rightarrow> sample list" where
  "sameDay k xs = filter (\<lambda>s. dateKeyOf s = k) xs"

definition bucketOf :: "string \<Rightarrow> sample list \<Rightarrow> bucket" where
  "bucketOf k xs =
     \<lparr>min_b = Min (set (map tminOf (sameDay k xs))),
      max_b = Max (set (map tmaxOf (sameDay k xs))),
      descriptions = filter (\<lambda>d. d \<noteq> []) (map descOf (sameDay k xs)),
      icons = filter (\<lambda>i. i \<noteq> []) (map iconOf (sameDay k xs))\<rparr>"

text \<open>The date keys that get a bucket of their own.\<close>

definition dateKeys :: "sample list \<Rightarrow> string set" where
  "dateKeys xs = {k \<in> dateKeyOf ` set xs. k \<noteq> [] \<and> k \<notin> set objectPrototypeKeys}"

text \<open>
  A sample makes the loop throw when its date key names a property of
  \<^verbatim>\<open>Object.prototype\<close> and it carries a description or an icon.
\<close>

definition throwing :: "sample \<Rightarrow> bool" where
  "throwing s \<longleftrightarrow>
     dateKeyOf s \<in> set objectPrototypeKeys \<and> (descOf s \<noteq> [] \<or> iconOf s \<noteq> [])"

text \<open>The bucket of a key after one more sample of that key.\<close>

definition extendBucket :: "bucket option \<Rightarrow> sample \<Rightarrow> bucket" where
  "extendBucket ob s =
     (case ob of
        None \<Rightarrow> \<lparr>min_b = tminOf s, max_b = tmaxOf s,
                 descriptions = (if descOf s \<noteq> [] then [descOf s] else []),
                 icons = (if iconOf s \<noteq> [] then [iconOf s] else [])\<rparr>
      | Some b \<Rightarrow> \<lparr>min_b = min (min_b b) (tminOf s), max_b = max (max_b b) (tmaxOf s),
                 descriptions = descriptions b @ (if descOf s \<noteq> [] then [descOf s] else []),
                 icons = icons b @ (if iconOf s \<noteq> [] then [iconOf s] else [])\<rparr>)"

text \<open>The loop invariant: \<open>b\<close> is \<^verbatim>\<open>byDay\<close> after the samples \<open>xs\<close>.\<close>

definition bucketsOk :: "sample list \<Rightarrow> byDay \<Rightarrow> bool" where
  "bucketsOk xs b \<longleftrightarrow>
     distinct (map fst b)
     \<and> (\<forall>k. map_of b k = (if k \<in> dateKeys xs then Some (bucketOf k xs) else None))"

section \<open>Example data\<close>

text \<open>
  A stand-in for the native key derivation: it knows the digest \<^verbatim>\<open>sha256\<close> only and
  derives a key of zero bytes.
\<close>

definition exampleKdf :: kdf where
  "exampleKdf password salt iterations keylen digest =
     (if digest = ''sha256'' then Inr (replicate keylen 0) else Inl TypeError)"

definition rnd24 :: "byte list" where
  "rnd24 = [0x3c, 0x9a, 0x01, 0xff, 0x10, 0x22, 0x7b, 0x5e, 0x00, 0x41, 0xd2, 0x8f,
            0x66, 0x13, 0xa7, 0xc4, 0x39, 0x0b, 0xee, 0x54, 0x92, 0x7d, 0x18, 0xb0]"

definition rnd16 :: "byte list" where
  "rnd16 = [0x5a, 0x00, 0xc3, 0x1e, 0x77, 0x90, 0x0d, 0xf2,
            0x48, 0xb6, 0x21, 0xea, 0x39, 0x04, 0x8c, 0x6f]"

definition ann :: user where
  "ann = \<lparr>uid = 1, email = ''ann@example.com'', uname = ''Ann'',
          password_hash = ''pbkdf2$sha256$120000$00$00'', theme = ''light'',
          reset_token = Some ''0a1b2c3d'', reset_expires = Some 1000\<rparr>"

definition annReset :: user where
  "annReset = ann\<lparr>password_hash :=
                 ''pbkdf2$sha256$120000$'' @ toHex rnd16 @ ''$'' @ toHex (replicate 32 0),
               reset_token := None, reset_expires := None\<rparr>"

definition sess1 :: sessions where
  "sess1 = [''3c9a01ff10227b5e0041d28f6613a7c4390bee54927d18b0'' \<mapsto> 1]"

definition putReq :: request where
  "putReq = \<lparr>meth = ''PUT'',
             authorization = Some ''Bearer 3c9a01ff10227b5e0041d28f6613a7c4390bee54927d18b0''\<rparr>"

definition logoutReq :: request where
  "logoutReq = \<lparr>meth = ''POST'',
                authorization = Some ''Bearer 3c9a01ff10227b5e0041d28f6613a7c4390bee54927d18b0''\<rparr>"

definition postReq :: request where
  "postReq = \<lparr>meth = ''POST'', authorization = None\<rparr>"

definition reading :: "string \<Rightarrow> rat \<Rightarrow> sample" where
  "reading ts t = \<lparr>dt_txt = Some ts,
                   main = Some \<lparr>temp_min = None, temp_max = None, temp = Some t\<rparr>,
                   weather = None\<rparr>"

definition exampleSamples :: "sample list" where
  "exampleSamples =
     [reading ''2024-01-01 00:00:00'' 2, reading ''2024-01-01 03:00:00'' 5,
      reading ''2024-01-01 06:00:00'' 8, reading ''2024-01-02 00:00:00'' (- 1),
      reading ''2024-01-02 03:00:00'' 3]"

definition exampleForecast :: "ForecastDay list" where
  "exampleForecast =
     [\<lparr>date = ''2024-01-01'', min_f = Finite 2, max_f = Finite 8,
       description_f = [], icon_f = []\<rparr>,
      \<lparr>date = ''2024-01-02'', min_f = Finite (- 1), max_f = Finite 3,
       description_f = [], icon_f = []\<rparr>]"

definition coldSamples :: "sample list" where
  "coldSamples =
     [reading ''2024-01-01 00:00:00'' (- 5 / 4), reading ''2024-01-01 03:00:00'' (5 / 4)]"

text \<open>The binary64 values nearest to -1.2 and to 1.3.\<close>

definition coldForecast :: "ForecastDay list" where
  "coldForecast =
     [\<lparr>date = ''2024-01-01'',
       min_f = Finite (- 5404319552844595 / 4503599627370496),
       max_f = Finite (5854679515581645 / 4503599627370496),
       description_f = [], icon_f = []\<rparr>]"

definition lateDescription :: "sample list" where
  "lateDescription =
     [\<lparr>dt_txt = Some ''2024-01-01 00:00:00'', main = None, weather = None\<rparr>,
      \<lparr>dt_txt = Some ''2024-01-01 03:00:00'', main = None,
       weather = Some [\<lparr>description = Some ''light rain'', icon = None\<rparr>]\<rparr>,
      \<lparr>dt_txt = Some ''2024-01-01 06:00:00'', main = None,
       weather = Some [\<lparr>description = Some ''clear sky'', icon = Some ''01d''\<rparr>]\<rparr>]"

definition lateForecast :: "ForecastDay list" where
  "lateForecast =
     [\<lparr>date = ''2024-01-01'', min_f = Finite 0, max_f = Finite 0,
       description_f = ''light rain'', icon_f = ''01d''\<rparr>]"

definition undated :: "sample list" where
  "undated =
     [\<lparr>dt_txt = None, main = Some \<lparr>temp_min = Some 1, temp_max = Some 9, temp = None\<rparr>,
       weather = Some [\<lparr>description = Some ''mist'', icon = Some ''50d''\<rparr>]\<rparr>,
      \<lparr>dt_txt = Some [], main = None, weather = None\<rparr>]"

section \<open>Auxiliary lemmas\<close>

subsection \<open>Tokens, trimming and numbers\<close>

lemma hexDigit_not_space: "\<not> isWhiteSpace (hexDigit n)"
proof -
  have "hexDigit n \<in> set ''0123456789abcdef''"
    unfolding hexDigit_def by (rule nth_mem) simp
  moreover have "\<forall>c \<in> set ''0123456789abcdef''. \<not> isWhiteSpace c"
    by (simp add: isWhiteSpace_def)
  ultimately show ?thesis by blast
qed

lemma trim_id:
  assumes "s \<noteq> []" "\<not> isWhiteSpace (hd s)" "\<not> isWhiteSpace (last s)"
  shows "trim s = s"
proof -
  from assms have a: "dropWhile isWhiteSpace s = s" by (cases s) auto
  from assms have "rev s \<noteq> []" "\<not> isWhiteSpace (hd (rev s))" by (auto simp: hd_rev)
  then have "dropWhile isWhiteSpace (rev s) = rev s" by (cases "rev s") auto
  with a show ?thesis by (simp add: trim_def)
qed

lemma toHex_cons: "toHex (b # bs) = hexDigit (unat b div 16) # hexDigit (unat b mod 16) # toHex bs"
  by (simp add: toHex_def hexByte_def)

lemma toHex_last: "bs \<noteq> [] \<Longrightarrow> \<exists>n. last (toHex bs) = hexDigit n"
proof (induction bs)
  case Nil then show ?case by simp
next
  case (Cons b bs)
  show ?case
  proof (cases bs)
    case Nil
    then show ?thesis by (auto simp: toHex_def hexByte_def)
  next
    case (Cons c cs)
    with Cons.IH obtain n where "last (toHex bs) = hexDigit n" by auto
    moreover have "toHex bs \<noteq> []" using Cons by (simp add: toHex_cons)
    ultimately show ?thesis by (auto simp: toHex_cons)
  qed
qed

lemma trim_makeToken: "rnd \<noteq> [] \<Longrightarrow> makeToken rnd \<noteq> [] \<and> trim (makeToken rnd) = makeToken rnd"
proof -
  assume r: "rnd \<noteq> []"
  then obtain b bs where rb: "rnd = b # bs" by (cases rnd) auto
  have ne: "toHex rnd \<noteq> []" by (simp add: rb toHex_cons)
  have h: "\<not> isWhiteSpace (hd (toHex rnd))" by (simp add: rb toHex_cons hexDigit_not_space)
  from toHex_last[OF r] obtain n where "last (toHex rnd) = hexDigit n" by auto
  then have l: "\<not> isWhiteSpace (last (toHex rnd))" by (simp add: hexDigit_not_space)
  show ?thesis using trim_id[OF ne h l] ne by (simp add: makeToken_def)
qed

lemma roundHalfEven_of_int: "roundHalfEven (of_int n) = n"
  by (simp add: roundHalfEven_def)

text \<open>An integer below \<open>2\<^sup>5\<^sup>3\<close> in magnitude is a binary64 value.\<close>

lemma toDouble_of_int:
  assumes "\<bar>n\<bar> < 2 ^ 53"
  shows "toDouble (of_int n) = Finite (of_int n)"
proof (cases "n = 0")
  case True
  then show ?thesis by (simp add: toDouble_def)
next
  case False
  define a :: rat where "a = \<bar>of_int n\<bar>"
  have a_int: "a = of_int \<bar>n\<bar>" by (simp add: a_def)
  have "1 \<le> \<bar>n\<bar>" using False by simp
  then have a1: "1 \<le> a" unfolding a_int by (simp only: of_int_1_le_iff)
  have fl: "\<lfloor>a\<rfloor> = \<bar>n\<bar>" unfolding a_int by (rule floor_of_int)
  have bl: "bitlen \<bar>n\<bar> \<le> 53" using assms by (simp add: bitlen_le_iff_power)
  have bp: "0 < bitlen \<bar>n\<bar>"
    using False bitlen_nonneg[of "\<bar>n\<bar> div 2"] by (subst compute_bitlen) simp
  define k where "k = nat (53 - bitlen \<bar>n\<bar>)"
  have e: "max (ilog2 a) (- 1022) = 52 - int k"
    using a1 bl bp by (simp add: ilog2_def fl k_def)
  have u: "pow2 (52 - int k - 52) = 1 / 2 ^ k"
    by (cases "k = 0") (simp_all add: pow2_def)
  have q: "a / (1 / 2 ^ k) = of_int (\<bar>n\<bar> * 2 ^ k)" by (simp add: a_def)
  have r: "of_int (\<bar>n\<bar> * 2 ^ k) * (1 / 2 ^ k) = a" by (simp add: a_def)
  have "a < 2 ^ 53" unfolding a_int using assms
    by (metis of_int_less_iff of_int_numeral of_int_power)
  also have "(2::rat) ^ 53 \<le> 2 ^ 1024" by (rule power_increasing) simp_all
  finally have big: "\<not> pow2 1024 \<le> a" by (simp add: pow2_def)
  have s: "(if of_int n < (0::rat) then - a else a) = of_int n" by (simp add: a_def)
  have n0: "(of_int n :: rat) \<noteq> 0" using False by simp
  show ?thesis
    unfolding toDouble_def Let_def a_def[symmetric] e u q roundHalfEven_of_int r
    using n0 big s by simp
qed

lemmas Number_simps = Number_def trim_def isWhiteSpace_def nonDecimal_def unsignedDecimal_def
      isDigit_def exponentPart_def digitsValue_def unhex_def

lemma Number_0: "Number ''0'' = Finite 0"
  by (simp add: Number_simps toDouble_def)

lemma Number_empty: "Number [] = Finite 0"
  by (simp add: Number_simps)

lemma Number_m5: "Number ''-5'' = Finite (- 5)"
  using toDouble_of_int[of "- 5"] by (simp add: Number_simps)

lemma Number_1: "Number ''1'' = Finite 1"
  using toDouble_of_int[of 1] by (simp add: Number_simps)

text \<open>Evaluating \<open>toDouble\<close> from the exponent and the rounded significand.\<close>

lemma toDouble_eval:
  assumes "q \<noteq> 0" "ilog2 \<bar>q\<bar> = e" "- 1022 \<le> e"
    "roundHalfEven (\<bar>q\<bar> / pow2 (e - 52)) = m"
    "of_int m * pow2 (e - 52) < pow2 1024"
  shows "toDouble q = Finite ((if q < 0 then - 1 else 1) * (of_int m * pow2 (e - 52)))"
proof -
  have mx: "max e (- 1022) = e" using assms(3) by simp
  show ?thesis
    unfolding toDouble_def Let_def assms(2) mx assms(4)
    using assms(1,5) by simp
qed

lemma pow2_values:
  "pow2 (- 52) = 1 / 4503599627370496"
  "pow2 (- 49) = 1 / 562949953421312"
  by (simp_all add: pow2_def)

lemma floor_3_2: "\<lfloor>3 / 2 :: rat\<rfloor> = 1"
  by (simp add: floor_eq_iff)

lemma toDouble_3_2: "toDouble (3 / 2) = Finite (3 / 2)"
proof -
  have i: "ilog2 \<bar>3 / 2 :: rat\<bar> = 0"
    by (simp add: ilog2_def floor_3_2 compute_bitlen)
  have r: "roundHalfEven (\<bar>3 / 2 :: rat\<bar> / pow2 (0 - 52)) = 6755399441055744"
    by (simp add: pow2_values roundHalfEven_def Let_def)
  have b: "of_int 6755399441055744 * pow2 (0 - 52) < pow2 1024"
    by (simp add: pow2_values) (simp add: pow2_def)
  show ?thesis
    using toDouble_eval[OF _ i _ r b] by (simp add: pow2_values)
qed

lemma floor_25_2: "\<lfloor>25 / 2 :: rat\<rfloor> = 12"
  by (simp add: floor_eq_iff)

lemma bitlen_12: "bitlen 12 = 4"
  by (simp add: compute_bitlen)

lemma toDouble_25_2:
  "toDouble (25 / 2) = Finite (25 / 2)" "toDouble (- (25 / 2)) = Finite (- (25 / 2))"
proof -
  have i: "ilog2 \<bar>25 / 2 :: rat\<bar> = 3" "ilog2 \<bar>- (25 / 2) :: rat\<bar> = 3"
    by (simp_all add: ilog2_def floor_25_2 bitlen_12)
  have r: "roundHalfEven (\<bar>25 / 2 :: rat\<bar> / pow2 (3 - 52)) = 7036874417766400"
    "roundHalfEven (\<bar>- (25 / 2) :: rat\<bar> / pow2 (3 - 52)) = 7036874417766400"
    by (simp_all add: pow2_values roundHalfEven_def Let_def)
  have b: "of_int 7036874417766400 * pow2 (3 - 52) < pow2 1024"
    by (simp add: pow2_values) (simp add: pow2_def)
  show "toDouble (25 / 2) = Finite (25 / 2)"
    using toDouble_eval[OF _ i(1) _ r(1) b] by (simp add: pow2_values)
  show "toDouble (- (25 / 2)) = Finite (- (25 / 2))"
    using toDouble_eval[OF _ i(2) _ r(2) b] by (simp add: pow2_values)
qed

lemma floor_6_5: "\<lfloor>6 / 5 :: rat\<rfloor> = 1"
  by (simp add: floor_eq_iff)

lemma toDouble_m6_5:
  "toDouble (- (6 / 5)) = Finite (- (5404319552844595 / 4503599627370496))"
proof -
  have i: "ilog2 \<bar>- (6 / 5) :: rat\<bar> = 0"
    by (simp add: ilog2_def floor_6_5 compute_bitlen)
  have f: "\<lfloor>27021597764222976 / 5 :: rat\<rfloor> = 5404319552844595"
    by (simp add: floor_eq_iff)
  have r: "roundHalfEven (\<bar>- (6 / 5) :: rat\<bar> / pow2 (0 - 52)) = 5404319552844595"
    by (simp add: pow2_values roundHalfEven_def f Let_def)
  have b: "of_int 5404319552844595 * pow2 (0 - 52) < pow2 1024"
    by (simp add: pow2_values) (simp add: pow2_def)
  show ?thesis
    using toDouble_eval[OF _ i _ r b] by (simp add: pow2_values)
qed

lemma floor_13_10: "\<lfloor>13 / 10 :: rat\<rfloor> = 1"
  by (simp add: floor_eq_iff)

lemma toDouble_13_10: "toDouble (13 / 10) = Finite (5854679515581645 / 4503599627370496)"
proof -
  have i: "ilog2 \<bar>13 / 10 :: rat\<bar> = 0"
    by (simp add: ilog2_def floor_13_10 compute_bitlen)
  have f: "\<lfloor>29273397577908224 / 5 :: rat\<rfloor> = 5854679515581644"
    by (simp add: floor_eq_iff)
  have r: "roundHalfEven (\<bar>13 / 10 :: rat\<bar> / pow2 (0 - 52)) = 5854679515581645"
    by (simp add: pow2_values roundHalfEven_def f Let_def)
  have b: "of_int 5854679515581645 * pow2 (0 - 52) < pow2 1024"
    by (simp add: pow2_values) (simp add: pow2_def)
  show ?thesis
    using toDouble_eval[OF _ i _ r b] by (simp add: pow2_values)
qed

text \<open>Rounding to one decimal place leaves a small integer as it is.\<close>

lemma round1_of_int:
  assumes "\<bar>n\<bar> < 2 ^ 49"
  shows "round1 (of_int n) = Finite (of_int n)"
proof -
  have "\<bar>n * 10\<bar> < 2 ^ 53" using assms by (simp add: abs_mult)
  from toDouble_of_int[OF this]
  have t: "jsTimes (of_int n) 10 = Finite (of_int (n * 10))" by (simp add: jsTimes_def)
  have fl: "\<lfloor>(of_int (n * 10) :: rat) + 1 / 2\<rfloor> = n * 10"
    by (rule floor_unique) simp_all
  have "\<bar>n\<bar> < 2 ^ 53" using assms by simp
  from toDouble_of_int[OF this]
  have d: "toDouble (of_int (n * 10) / 10) = Finite (of_int n)" by simp
  show ?thesis
    unfolding round1_def t mathRound.simps fl jsDivide.simps d ..
qed

lemma round1_small:
  "round1 0 = Finite 0" "round1 2 = Finite 2" "round1 8 = Finite 8"
  "round1 (- 1) = Finite (- 1)" "round1 3 = Finite 3"
  using round1_of_int[of 0] round1_of_int[of 2] round1_of_int[of 8]
    round1_of_int[of "- 1"] round1_of_int[of 3]
  by simp_all

lemma round1_ties:
  "round1 (- (5 / 4)) = Finite (- (5404319552844595 / 4503599627370496))"
  "round1 (5 / 4) = Finite (5854679515581645 / 4503599627370496)"
proof -
  show "round1 (- (5 / 4)) = Finite (- (5404319552844595 / 4503599627370496))"
    by (simp add: round1_def jsTimes_def toDouble_25_2 toDouble_m6_5)
  show "round1 (5 / 4) = Finite (5854679515581645 / 4503599627370496)"
    by (simp add: round1_def jsTimes_def toDouble_25_2 toDouble_13_10)
qed

text \<open>The integer that \<^verbatim>\<open>Math.round\<close> picks.\<close>

lemma mathRound_props:
  "mathRound (Finite p) = Finite (of_int \<lfloor>p + 1 / 2\<rfloor>)"
  "\<bar>of_int \<lfloor>p + 1 / 2\<rfloor> - p\<bar> \<le> 1 / 2"
  "p - of_int \<lfloor>p\<rfloor> = 1 / 2 \<longrightarrow> of_int \<lfloor>p + 1 / 2\<rfloor> = p + 1 / 2"
proof -
  show "mathRound (Finite p) = Finite (of_int \<lfloor>p + 1 / 2\<rfloor>)" by simp
  define f :: rat where "f = of_int \<lfloor>p + 1 / 2\<rfloor>"
  have "f \<le> p + 1 / 2" "p + 1 / 2 < f + 1"
    unfolding f_def by linarith+
  then have "f - p \<le> 1 / 2" "- (1 / 2) \<le> f - p" by linarith+
  then have "\<bar>f - p\<bar> \<le> 1 / 2" by linarith
  then show "\<bar>of_int \<lfloor>p + 1 / 2\<rfloor> - p\<bar> \<le> 1 / 2" by (simp add: f_def)
  show "p - of_int \<lfloor>p\<rfloor> = 1 / 2 \<longrightarrow> of_int \<lfloor>p + 1 / 2\<rfloor> = p + 1 / 2"
  proof
    assume a: "p - of_int \<lfloor>p\<rfloor> = 1 / 2"
    then have "p + 1 / 2 = of_int (\<lfloor>p\<rfloor> + 1)" by simp
    then have "\<lfloor>p + 1 / 2\<rfloor> = \<lfloor>p\<rfloor> + 1" by (simp only: floor_of_int)
    with a show "of_int \<lfloor>p + 1 / 2\<rfloor> = p + 1 / 2" by simp
  qed
qed

lemma Number_1_5: "Number ''1.5'' = Finite (3 / 2)"
  by (simp add: Number_simps toDouble_3_2)

lemma Number_abc: "Number ''abc'' = NaN"
  by (simp add: Number_def trim_def isWhiteSpace_def nonDecimal_def unsignedDecimal_def
      isDigit_def exponentPart_def digitsValue_def unhex_def toDouble_def)

lemma validate_examples:
  "validateInt32 (Finite 0) 1 = Inl RangeError"
  "validateInt32 (Finite (- 5)) 1 = Inl RangeError"
  "validateInt32 (Finite (3 / 2)) 1 = Inl RangeError"
  "validateInt32 (Finite 1) 1 = Inr 1"
  by (simp_all add: floor_3_2)

text \<open>A stored string without exactly five fields, or with an iteration field that is
  no finite number, is refused without a call of the key derivation.\<close>

lemma verifyPassword_field_count:
  assumes "length (split CHR ''$'' stored) \<noteq> 5"
  shows "verifyPassword K password stored = Inr False"
  using assms by (auto simp: verifyPassword_def split: list.splits)

lemma verifyPassword_not_finite:
  assumes "split CHR ''$'' stored = [p0, digest, iterStr, salt, hashHex]"
    "\<not> isFinite (Number iterStr)"
  shows "verifyPassword K password stored = Inr False"
  using assms by (simp add: verifyPassword_def)

subsection \<open>Sessions, users and handlers\<close>

lemma requireAuth_issue:
  assumes "userId \<noteq> 0" "rnd \<noteq> []"
  shows "requireAuth (snd (issue ss rnd userId))
           \<lparr>meth = m, authorization = Some (''Bearer '' @ fst (issue ss rnd userId))\<rparr> = Inr userId"
proof -
  from trim_makeToken[OF assms(2)]
  have t: "makeToken rnd \<noteq> []" "trim (makeToken rnd) = makeToken rnd" by simp_all
  have g: "getAuthToken \<lparr>meth = m, authorization = Some (''Bearer '' @ makeToken rnd)\<rparr>
             = makeToken rnd"
    by (simp add: getAuthToken_def t)
  show ?thesis
    unfolding requireAuth_def issue_def Let_def fst_conv snd_conv g
    using assms(1) t(1) by simp
qed

lemma requireAuth_logout:
  assumes "meth req = ''POST''" "getAuthToken req' = getAuthToken req"
  shows "requireAuth (snd (logout ss req)) req' = Inl (401, ErrorBody ''Unauthorized'')"
  using assms by (auto simp: requireAuth_def logout_def Let_def split: option.splits)

lemma logout_absent:
  assumes "meth req = ''POST''" "ss (getAuthToken req) = None"
  shows "logout ss req = ((200, Success), ss)"
  using assms by (auto simp: logout_def Let_def)

lemma logout_twice:
  assumes "meth req = ''POST''"
  shows "logout (snd (logout ss req)) req = ((200, Success), snd (logout ss req))"
  using assms by (auto simp: logout_def Let_def)

lemma themeHandler_authed:
  assumes "requireAuth ss req = Inr userId" "meth req = ''PUT''"
  shows "themeHandler ss db req bodyTheme =
     (let th = (case bodyTheme of None \<Rightarrow> ''system'' | Some t \<Rightarrow> if t = [] then ''system'' else t)
      in if th \<notin> set [''system'', ''light'', ''dark'']
         then ((400, ErrorBody ''theme must be system|light|dark''), db)
         else ((200, SuccessTheme th), updateById db userId (\<lambda>r. r\<lparr>theme := th\<rparr>)))"
  using assms unfolding themeHandler_def by simp

lemma updateById_theme:
  assumes "u \<in> set (updateById db userId (\<lambda>r. r\<lparr>theme := th\<rparr>))" "uid u = userId"
  shows "theme u = th"
proof -
  from assms(1) obtain x where x: "x \<in> set db"
    and u: "u = (if uid x = userId then x\<lparr>theme := th\<rparr> else x)"
    unfolding updateById_def by auto
  show ?thesis
  proof (cases "uid x = userId")
    case True
    with u show ?thesis by simp
  next
    case False
    with u assms(2) show ?thesis by simp
  qed
qed

lemma putReq_auth: "requireAuth sess1 putReq = Inr 1"
  by (simp add: requireAuth_def sess1_def putReq_def getAuthToken_def trim_def isWhiteSpace_def)

lemma getByEmail_updateById:
  assumes "\<And>u. email (f u) = email u"
  shows "getByEmail (updateById db i f) e = map_option (\<lambda>u. if uid u = i then f u else u) (getByEmail db e)"
  unfolding getByEmail_def updateById_def
  using assms by (induction db) auto

lemma consume_200:
  assumes "fst (fst (consume K rnd now db em tok pw)) = 200"
  shows "\<exists>row ex h. getByEmail db em = Some row \<and> reset_token row = Some tok \<and> tok \<noteq> []
           \<and> reset_expires row = Some ex \<and> ex \<noteq> 0 \<and> now \<le> ex \<and> hashPassword K rnd pw = Inr h
           \<and> consume K rnd now db em tok pw =
               ((200, Success), updateById db (uid row)
                  (\<lambda>r. r\<lparr>password_hash := h, reset_token := None, reset_expires := None\<rparr>))"
  using assms
  by (auto simp: consume_def split: option.splits if_splits sum.splits)

lemma consume_ok:
  assumes "getByEmail db em = Some row" "reset_token row = Some tok" "tok \<noteq> []"
    "reset_expires row = Some ex" "ex \<noteq> 0" "now \<le> ex" "hashPassword K rnd pw = Inr h"
  shows "consume K rnd now db em tok pw =
           ((200, Success), updateById db (uid row)
              (\<lambda>r. r\<lparr>password_hash := h, reset_token := None, reset_expires := None\<rparr>))"
  using assms by (auto simp: consume_def)

lemma consume_expired:
  assumes "getByEmail db em = Some row" "reset_token row = Some tok"
    "reset_expires row = Some ex" "now > ex"
  shows "fst (fst (consume K rnd now db em tok pw)) = 400 \<and> snd (consume K rnd now db em tok pw) = db"
  using assms by (auto simp: consume_def)

lemma consume_replay:
  assumes "fst (fst (consume K rnd now db em tok pw)) = 200"
  shows "consume K' rnd' now' (snd (consume K rnd now db em tok pw)) em tok pw'
          = ((400, ErrorBody ''reset not requested''), snd (consume K rnd now db em tok pw))"
proof -
  from consume_200[OF assms] obtain row ex h where
    r: "getByEmail db em = Some row" and
    c: "consume K rnd now db em tok pw =
               ((200, Success), updateById db (uid row)
                  (\<lambda>r. r\<lparr>password_hash := h, reset_token := None, reset_expires := None\<rparr>))"
    by blast
  have "getByEmail (snd (consume K rnd now db em tok pw)) em =
          Some (row\<lparr>password_hash := h, reset_token := None, reset_expires := None\<rparr>)"
    by (simp add: c getByEmail_updateById r)
  then show ?thesis by (simp add: consume_def)
qed

text \<open>Past its validation the handler is the consume of the normalised fields.\<close>

lemma resetHandler_consume:
  assumes "meth req = ''POST''"
    "toLowerCase (trim (orEmpty (rb_email b))) \<noteq> []"
    "trim (orEmpty (rb_resetToken b)) \<noteq> []"
    "6 \<le> length (orEmpty (rb_newPassword b))"
  shows "resetHandler K rnd now db req b =
           consume K rnd now db (toLowerCase (trim (orEmpty (rb_email b))))
             (trim (orEmpty (rb_resetToken b))) (orEmpty (rb_newPassword b))"
proof -
  from assms(4) have "orEmpty (rb_newPassword b) \<noteq> []" by auto
  with assms show ?thesis by (simp add: resetHandler_def Let_def)
qed

lemma hash_example:
  "hashPassword exampleKdf rnd16 pw =
     Inr (''pbkdf2$sha256$120000$'' @ toHex rnd16 @ ''$'' @ toHex (replicate 32 0))"
  by (simp add: hashPassword_def pbkdf2Sync_def exampleKdf_def DIGEST_def KEYLEN_def
      PBKDF2_ITER_def Let_def)

lemma ann_lookup: "getByEmail [ann] ''ann@example.com'' = Some ann"
  by (simp add: getByEmail_def ann_def)

lemma ann_fields:
  "reset_token ann = Some ''0a1b2c3d''" "reset_expires ann = Some 1000" "uid ann = 1"
  by (simp_all add: ann_def)

lemma norm_ann: "toLowerCase (trim (orEmpty (Some '' Ann@Example.com''))) = ''ann@example.com''"
  by (simp add: orEmpty_def trim_def isWhiteSpace_def toLowerCase_def lowerChar_def
      char_of_def bit_Suc_0_iff)

lemma norm_bob: "toLowerCase (trim (orEmpty (Some ''bob@example.com''))) = ''bob@example.com''"
  by (simp add: orEmpty_def trim_def isWhiteSpace_def toLowerCase_def lowerChar_def)

subsection \<open>The aggregation loop\<close>

lemma empty_not_proto: "[] \<notin> set objectPrototypeKeys"
  by (simp add: objectPrototypeKeys_def)

lemma addSample_skip: "dateKeyOf s = [] \<Longrightarrow> addSample b s = Inr b"
  by (simp add: addSample_def)

lemma addSample_proto:
  assumes "dateKeyOf s \<in> set objectPrototypeKeys" "map_of b (dateKeyOf s) = None"
  shows "addSample b s = (if descOf s \<noteq> [] \<or> iconOf s \<noteq> [] then Inl TypeError else Inr b)"
proof -
  have ne: "dateKeyOf s \<noteq> []" using assms(1) empty_not_proto by metis
  have g: "getProp b (dateKeyOf s) = Inherited" using assms by (simp add: getProp_def)
  show ?thesis
    by (simp add: addSample_def Let_def ne g pushDescription_def pushIcon_def)
qed

lemma getProp_update: "getProp (AList.update k v b) k = Own v"
  by (simp add: getProp_def update_conv')

lemma addSample_own:
  assumes "dateKeyOf s \<noteq> []" "dateKeyOf s \<notin> set objectPrototypeKeys \<or> map_of b (dateKeyOf s) \<noteq> None"
  shows "\<exists>b'. addSample b s = Inr b'
           \<and> map_of b' = (map_of b)(dateKeyOf s \<mapsto> extendBucket (map_of b (dateKeyOf s)) s)
           \<and> (distinct (map fst b) \<longrightarrow> distinct (map fst b'))"
proof (cases "map_of b (dateKeyOf s)")
  case None
  with assms have g: "getProp b (dateKeyOf s) = Undefined" by (simp add: getProp_def)
  show ?thesis
    using assms(1) None
    by (simp add: addSample_def Let_def g pushDescription_def pushIcon_def getProp_update
        extendBucket_def update_conv' distinct_update)
next
  case (Some bk)
  then have g: "getProp b (dateKeyOf s) = Own bk" by (simp add: getProp_def)
  show ?thesis
    using assms(1) Some
    by (cases bk)
      (simp add: addSample_def Let_def g pushDescription_def pushIcon_def getProp_update
        extendBucket_def update_conv' distinct_update)
qed

lemma addSamples_snoc:
  "addSamples b (xs @ [s]) =
     (case addSamples b xs of Inl e \<Rightarrow> Inl e | Inr b' \<Rightarrow> addSample b' s)"
  by (induction xs arbitrary: b) (auto split: sum.splits)

lemma sameDay_snoc:
  "sameDay k (xs @ [s]) = (if dateKeyOf s = k then sameDay k xs @ [s] else sameDay k xs)"
  by (simp add: sameDay_def)

lemma sameDay_empty_iff: "sameDay k xs = [] \<longleftrightarrow> k \<notin> dateKeyOf ` set xs"
  by (auto simp: sameDay_def filter_empty_conv)

lemma bucketOf_snoc_other: "dateKeyOf s \<noteq> k \<Longrightarrow> bucketOf k (xs @ [s]) = bucketOf k xs"
  by (simp add: bucketOf_def sameDay_snoc)

lemma bucketOf_snoc_new:
  assumes "dateKeyOf s = k" "k \<notin> dateKeyOf ` set xs"
  shows "bucketOf k (xs @ [s]) = extendBucket None s"
proof -
  from assms(2) have e: "sameDay k xs = []" by (simp add: sameDay_empty_iff)
  show ?thesis by (simp add: bucketOf_def sameDay_snoc assms(1) e extendBucket_def)
qed

lemma bucketOf_snoc_old:
  assumes "dateKeyOf s = k" "k \<in> dateKeyOf ` set xs"
  shows "bucketOf k (xs @ [s]) = extendBucket (Some (bucketOf k xs)) s"
proof -
  from assms(2) have ne: "sameDay k xs \<noteq> []" by (simp add: sameDay_empty_iff)
  have mn: "Min (insert (tminOf s) (tminOf ` set (sameDay k xs)))
              = min (Min (tminOf ` set (sameDay k xs))) (tminOf s)"
    using ne by (simp add: min.commute)
  have mx: "Max (insert (tmaxOf s) (tmaxOf ` set (sameDay k xs)))
              = max (Max (tmaxOf ` set (sameDay k xs))) (tmaxOf s)"
    using ne by (simp add: max.commute)
  show ?thesis
    by (simp add: bucketOf_def sameDay_snoc assms(1) extendBucket_def mn mx)
qed

lemma dateKeys_snoc:
  "dateKeys (xs @ [s]) =
     (if dateKeyOf s \<noteq> [] \<and> dateKeyOf s \<notin> set objectPrototypeKeys
      then insert (dateKeyOf s) (dateKeys xs) else dateKeys xs)"
  by (auto simp: dateKeys_def)

lemma bucketsOk_step:
  assumes ok: "bucketsOk xs b"
  shows "(throwing s \<longrightarrow> addSample b s = Inl TypeError)
       \<and> (\<not> throwing s \<longrightarrow> (\<exists>b'. addSample b s = Inr b' \<and> bucketsOk (xs @ [s]) b'))"
proof -
  let ?k = "dateKeyOf s"
  from ok have d: "distinct (map fst b)"
    and m: "\<And>k. map_of b k = (if k \<in> dateKeys xs then Some (bucketOf k xs) else None)"
    by (simp_all add: bucketsOk_def)
  have protoNone: "\<And>k. k \<in> set objectPrototypeKeys \<Longrightarrow> map_of b k = None"
    by (simp add: m dateKeys_def)
  consider (skip) "?k = []" | (proto) "?k \<in> set objectPrototypeKeys"
    | (own) "?k \<noteq> []" "?k \<notin> set objectPrototypeKeys" by blast
  then show ?thesis
  proof cases
    case skip
    then have nt: "\<not> throwing s" using empty_not_proto by (auto simp: throwing_def)
    have dk: "dateKeys (xs @ [s]) = dateKeys xs" by (simp add: dateKeys_snoc skip)
    have bo: "\<And>k. k \<in> dateKeys xs \<Longrightarrow> bucketOf k (xs @ [s]) = bucketOf k xs"
      using skip by (intro bucketOf_snoc_other) (auto simp: dateKeys_def)
    have "bucketsOk (xs @ [s]) b"
      unfolding bucketsOk_def dk using d m bo by simp
    with nt skip show ?thesis by (simp add: addSample_skip)
  next
    case proto
    have dk: "dateKeys (xs @ [s]) = dateKeys xs" by (simp add: dateKeys_snoc proto)
    have bo: "\<And>k. k \<in> dateKeys xs \<Longrightarrow> bucketOf k (xs @ [s]) = bucketOf k xs"
      using proto by (intro bucketOf_snoc_other) (auto simp: dateKeys_def)
    have okb: "bucketsOk (xs @ [s]) b"
      unfolding bucketsOk_def dk using d m bo by simp
    have th: "throwing s \<longleftrightarrow> descOf s \<noteq> [] \<or> iconOf s \<noteq> []"
      using proto by (simp add: throwing_def)
    show ?thesis
      using addSample_proto[OF proto protoNone[OF proto]] okb th by simp
  next
    case own
    then have nt: "\<not> throwing s" by (simp add: throwing_def)
    from addSample_own[of s b] own obtain b' where
      a: "addSample b s = Inr b'"
      and mb: "map_of b' = (map_of b)(?k \<mapsto> extendBucket (map_of b ?k) s)"
      and db: "distinct (map fst b')"
      using d by blast
    have dk: "dateKeys (xs @ [s]) = insert ?k (dateKeys xs)"
      using own by (simp add: dateKeys_snoc)
    have inK: "?k \<in> dateKeys xs \<longleftrightarrow> ?k \<in> dateKeyOf ` set xs"
      using own by (simp add: dateKeys_def)
    have same: "extendBucket (map_of b ?k) s = bucketOf ?k (xs @ [s])"
    proof (cases "?k \<in> dateKeyOf ` set xs")
      case True
      then show ?thesis using bucketOf_snoc_old[of s ?k xs] inK by (simp add: m)
    next
      case False
      then show ?thesis using bucketOf_snoc_new[of s ?k xs] inK by (simp add: m)
    qed
    have "\<And>k. map_of b' k = (if k \<in> dateKeys (xs @ [s]) then Some (bucketOf k (xs @ [s])) else None)"
    proof -
      fix k
      show "map_of b' k = (if k \<in> dateKeys (xs @ [s]) then Some (bucketOf k (xs @ [s])) else None)"
      proof (cases "k = ?k")
        case True
        then show ?thesis by (simp add: mb same dk)
      next
        case False
        then have "bucketOf k (xs @ [s]) = bucketOf k xs"
          by (intro bucketOf_snoc_other) simp
        with False show ?thesis by (simp add: mb dk m)
      qed
    qed
    then have "bucketsOk (xs @ [s]) b'" using db by (simp add: bucketsOk_def)
    with a nt show ?thesis by simp
  qed
qed

lemma bucketsOk_Nil: "bucketsOk [] []"
  by (simp add: bucketsOk_def dateKeys_def)

text \<open>
  The loop throws exactly when some sample is throwing; otherwise it ends with the
  buckets of the date keys.
\<close>

lemma addSamples_char:
  "(\<exists>s \<in> set xs. throwing s) \<longrightarrow> addSamples [] xs = Inl TypeError"
  "(\<forall>s \<in> set xs. \<not> throwing s) \<longrightarrow> (\<exists>b. addSamples [] xs = Inr b \<and> bucketsOk xs b)"
proof (induction xs rule: rev_induct)
  case Nil
  { case 1 show ?case by simp }
  { case 2 show ?case by (simp add: bucketsOk_Nil) }
next
  case (snoc s xs)
  { case 1
    show ?case
    proof (cases "\<exists>t \<in> set xs. throwing t")
      case True
      with snoc.IH(1) show ?thesis by (simp add: addSamples_snoc)
    next
      case False
      with snoc.IH(2) obtain b where b: "addSamples [] xs = Inr b" "bucketsOk xs b" by auto
      from bucketsOk_step[OF b(2), of s] False b(1) show ?thesis
        by (auto simp: addSamples_snoc)
    qed }
  { case 2
    show ?case
    proof
      assume n: "\<forall>t \<in> set (xs @ [s]). \<not> throwing t"
      with snoc.IH(2) obtain b where b: "addSamples [] xs = Inr b" "bucketsOk xs b" by auto
      from bucketsOk_step[OF b(2), of s] n b(1)
      show "\<exists>b. addSamples [] (xs @ [s]) = Inr b \<and> bucketsOk (xs @ [s]) b"
        by (auto simp: addSamples_snoc)
    qed }
qed

lemma aggregate_throws:
  assumes "\<exists>s \<in> set xs. throwing s"
  shows "aggregate xs = Inl TypeError"
  using addSamples_char(1)[of xs] assms by (simp add: aggregate_def)

lemma aggregate_char:
  assumes "\<forall>s \<in> set xs. \<not> throwing s"
  shows "aggregate xs =
           Inr (map (\<lambda>d. forecastDay d (bucketOf d xs)) (take 6 (sorted_list_of_set (dateKeys xs))))"
proof -
  from addSamples_char(2)[of xs] assms obtain b where
    b: "addSamples [] xs = Inr b" and ok: "bucketsOk xs b" by blast
  from ok have d: "distinct (map fst b)"
    and m: "\<And>k. map_of b k = (if k \<in> dateKeys xs then Some (bucketOf k xs) else None)"
    by (simp_all add: bucketsOk_def)
  have "set (map fst b) = dom (map_of b)" by (simp add: dom_map_of_conv_image_fst)
  also have "\<dots> = dateKeys xs" by (auto simp: dom_def m)
  finally have ks: "set (map fst b) = dateKeys xs" .
  have "sorted_list_of_set (set (map fst b)) = sort (remdups (map fst b))"
    by (rule sorted_list_of_set_sort_remdups)
  then have srt: "sort (map fst b) = sorted_list_of_set (dateKeys xs)"
    using d ks by (simp add: distinct_remdups_id)
  let ?days = "take 6 (sorted_list_of_set (dateKeys xs))"
  have fin: "finite (dateKeys xs)" using ks[symmetric] by simp
  have sub: "set ?days \<subseteq> dateKeys xs"
    using set_take_subset[of 6 "sorted_list_of_set (dateKeys xs)"] fin by simp
  have eq: "map (\<lambda>d. case map_of b d of None \<Rightarrow> [] | Some day \<Rightarrow> [forecastDay d day]) ?days
          = map (\<lambda>d. [forecastDay d (bucketOf d xs)]) ?days"
    by (rule map_cong[OF refl]) (use sub m in auto)
  have "concat (map (\<lambda>d. case map_of b d of None \<Rightarrow> [] | Some day \<Rightarrow> [forecastDay d day]) ?days)
          = map (\<lambda>d. forecastDay d (bucketOf d xs)) ?days"
    unfolding eq by (rule concat_map_singleton)
  then show ?thesis by (simp add: aggregate_def b srt)
qed

lemma aggregate_Inr:
  assumes "aggregate xs = Inr fc"
  shows "fc = map (\<lambda>d. forecastDay d (bucketOf d xs)) (take 6 (sorted_list_of_set (dateKeys xs)))"
proof (cases "\<exists>s \<in> set xs. throwing s")
  case True
  from aggregate_throws[OF True] assms show ?thesis by simp
next
  case False
  then have "\<forall>s \<in> set xs. \<not> throwing s" by blast
  from aggregate_char[OF this] assms show ?thesis by simp
qed

lemma date_forecastDay: "date (forecastDay d b) = d"
  by (simp add: forecastDay_def)

lemma aggregate_dates:
  assumes "aggregate xs = Inr fc"
  shows "map date fc = take 6 (sorted_list_of_set (dateKeys xs))"
  unfolding aggregate_Inr[OF assms] by (simp add: comp_def date_forecastDay)

lemma aggregate_day:
  assumes "aggregate xs = Inr fc" "day \<in> set fc"
  shows "day = forecastDay (date day) (bucketOf (date day) xs) \<and> date day \<in> dateKeys xs"
proof -
  have fin: "finite (dateKeys xs)" by (simp add: dateKeys_def)
  from assms(2) obtain d where d: "d \<in> set (take 6 (sorted_list_of_set (dateKeys xs)))"
    and e: "day = forecastDay d (bucketOf d xs)"
    unfolding aggregate_Inr[OF assms(1)] by auto
  from d have "d \<in> dateKeys xs"
    using set_take_subset[of 6 "sorted_list_of_set (dateKeys xs)"] fin by auto
  with e show ?thesis by (simp add: date_forecastDay)
qed

lemma sorted_days: "sorted (take n (sorted_list_of_set A)) \<and> distinct (take n (sorted_list_of_set A))"
  by (simp add: sorted_wrt_take)

lemma addSamples_example:
  "addSamples [] exampleSamples =
     Inr [(''2024-01-01'', \<lparr>min_b = 2, max_b = 8, descriptions = [], icons = []\<rparr>),
          (''2024-01-02'', \<lparr>min_b = - 1, max_b = 3, descriptions = [], icons = []\<rparr>)]"
  by code_simp

lemma days_example:
  "take 6 (sort [''2024-01-01'', ''2024-01-02'']) = [''2024-01-01'', ''2024-01-02'']"
  "take 6 (sort [''2024-01-01'']) = [''2024-01-01'']"
  by code_simp+

lemma aggregate_example: "aggregate exampleSamples = Inr exampleForecast"
  by (simp add: aggregate_def addSamples_example days_example forecastDay_def round1_small
      exampleForecast_def)

lemma example_not_throwing: "\<forall>s \<in> set exampleSamples. \<not> throwing s"
  by (simp add: exampleSamples_def reading_def throwing_def dateKeyOf_def orEmpty_def
      objectPrototypeKeys_def)

lemma addSamples_cold:
  "addSamples [] coldSamples =
     Inr [(''2024-01-01'', \<lparr>min_b = - 5 / 4, max_b = 5 / 4, descriptions = [], icons = []\<rparr>)]"
  by code_simp

lemma aggregate_cold: "aggregate coldSamples = Inr coldForecast"
  by (simp add: aggregate_def addSamples_cold days_example forecastDay_def round1_ties
      coldForecast_def)

lemma addSamples_late:
  "addSamples [] lateDescription =
     Inr [(''2024-01-01'', \<lparr>min_b = 0, max_b = 0, descriptions = [''light rain'', ''clear sky''],
                             icons = [''01d'']\<rparr>)]"
  by code_simp

lemma aggregate_late: "aggregate lateDescription = Inr lateForecast"
  by (simp add: aggregate_def addSamples_late days_example forecastDay_def round1_small
      lateForecast_def)

lemma sameDay_cold: "sameDay ''2024-01-01'' coldSamples = coldSamples"
  by (simp add: sameDay_def coldSamples_def reading_def dateKeyOf_def orEmpty_def)

lemma cold_temps: "map tminOf coldSamples = [- 5 / 4, 5 / 4]" "map tmaxOf coldSamples = [- 5 / 4, 5 / 4]"
  by (simp_all add: coldSamples_def reading_def tminOf_def tmaxOf_def)

lemma sameDay_late: "sameDay ''2024-01-01'' lateDescription = lateDescription"
  by (simp add: sameDay_def lateDescription_def dateKeyOf_def orEmpty_def)

lemma dateKeyOf_empty: "dateKeyOf s = [] \<longleftrightarrow> dt_txt s = None \<or> dt_txt s = Some []"
  by (auto simp: dateKeyOf_def orEmpty_def split: option.splits)

lemma addSamples_filter:
  "addSamples b (filter (\<lambda>s. dt_txt s \<noteq> None \<and> dt_txt s \<noteq> Some []) xs) = addSamples b xs"
proof (induction xs arbitrary: b)
  case Nil
  show ?case by simp
next
  case (Cons s xs)
  show ?case
  proof (cases "dt_txt s = None \<or> dt_txt s = Some []")
    case True
    then have "addSample b s = Inr b" using dateKeyOf_empty addSample_skip by blast
    with True Cons show ?thesis by auto
  next
    case False
    with Cons show ?thesis by (auto split: sum.splits)
  qed
qed

section \<open>Password verification on malformed credentials\<close>

text \<open>
  Claim C1: \<^verbatim>\<open>verifyPassword\<close> returns a boolean and never throws on a malformed
  stored credential. The wrong field count, a non-numeric iteration field and a stored
  hash that is not hexadecimal give \<^verbatim>\<open>false\<close>. An iteration field that reads as zero
  (also the empty field), as a negative number or as a fraction passes the guard
  \<^verbatim>\<open>Number.isFinite\<close> and \<^verbatim>\<open>crypto.pbkdf2Sync\<close> throws a RangeError; a digest name
  the key derivation does not know throws a TypeError.
\<close>

theorem verifyPassword_malformed_examples:
  "verifyPassword K ''secret'' ''pbkdf2$sha256$0$ab$cd'' = Inl RangeError
   \<and> verifyPassword K ''secret'' ''pbkdf2$sha256$$ab$cd'' = Inl RangeError
   \<and> verifyPassword K ''secret'' ''pbkdf2$sha256$-5$ab$cd'' = Inl RangeError
   \<and> verifyPassword K ''secret'' ''pbkdf2$sha256$1.5$ab$cd'' = Inl RangeError
   \<and> verifyPassword exampleKdf ''secret'' ''pbkdf2$md0$1$ab$cd'' = Inl TypeError
   \<and> verifyPassword K ''secret'' ''pbkdf2$sha256'' = Inr False
   \<and> verifyPassword K ''secret'' ''pbkdf2$sha256$abc$ab$cd'' = Inr False
   \<and> verifyPassword exampleKdf ''secret'' ''pbkdf2$sha256$1$ab$zz'' = Inr False"
proof (intro conjI)
  show "verifyPassword K ''secret'' ''pbkdf2$sha256$0$ab$cd'' = Inl RangeError"
    by (simp add: verifyPassword_def Number_0 pbkdf2Sync_def validate_examples)
  show "verifyPassword K ''secret'' ''pbkdf2$sha256$$ab$cd'' = Inl RangeError"
    by (simp add: verifyPassword_def Number_empty pbkdf2Sync_def validate_examples)
  show "verifyPassword K ''secret'' ''pbkdf2$sha256$-5$ab$cd'' = Inl RangeError"
    by (simp add: verifyPassword_def Number_m5 pbkdf2Sync_def validate_examples)
  show "verifyPassword K ''secret'' ''pbkdf2$sha256$1.5$ab$cd'' = Inl RangeError"
    by (simp add: verifyPassword_def Number_1_5 pbkdf2Sync_def validate_examples del: validateInt32.simps)
  show "verifyPassword exampleKdf ''secret'' ''pbkdf2$md0$1$ab$cd'' = Inl TypeError"
    by (simp add: verifyPassword_def Number_1 pbkdf2Sync_def validate_examples exampleKdf_def)
  show "verifyPassword K ''secret'' ''pbkdf2$sha256'' = Inr False"
    by (simp add: verifyPassword_def)
  show "verifyPassword K ''secret'' ''pbkdf2$sha256$abc$ab$cd'' = Inr False"
    by (simp add: verifyPassword_def Number_abc)
  show "verifyPassword exampleKdf ''secret'' ''pbkdf2$sha256$1$ab$zz'' = Inr False"
    by (simp add: verifyPassword_def Number_1 pbkdf2Sync_def validate_examples exampleKdf_def
        KEYLEN_def unhex_def)
qed

section \<open>Forecast aggregation: order, bound and the two-day example\<close>

text \<open>
  Claim C2: whenever the aggregation returns a forecast, its dates are sorted
  ascending (and distinct) and it has at most six days; it returns a forecast unless a
  sample is throwing; the empty list gives the empty forecast; and the samples of
  2024-01-01 (2, 5, 8) and 2024-01-02 (-1, 3) give the two days with minimum and maximum
  2, 8 and -1, 3, in that order, with empty description and icon.
\<close>

theorem aggregate_sorted_bounded:
  "(aggregate xs = Inr fc \<longrightarrow> sorted (map date fc) \<and> distinct (map date fc) \<and> length fc \<le> 6)
   \<and> ((\<forall>s \<in> set xs. \<not> throwing s) \<longrightarrow> (\<exists>fc. aggregate xs = Inr fc))
   \<and> aggregate [] = Inr []
   \<and> aggregate exampleSamples = Inr exampleForecast"
proof (intro conjI impI)
  assume a: "aggregate xs = Inr fc"
  show "sorted (map date fc)" unfolding aggregate_dates[OF a] using sorted_days by blast
  show "distinct (map date fc)" unfolding aggregate_dates[OF a] using sorted_days by blast
  have "length (map date fc) \<le> 6" unfolding aggregate_dates[OF a] by simp
  then show "length fc \<le> 6" by simp
next
  assume "\<forall>s \<in> set xs. \<not> throwing s"
  from aggregate_char[OF this] show "\<exists>fc. aggregate xs = Inr fc" by blast
next
  show "aggregate [] = Inr []" by (simp add: aggregate_def)
  show "aggregate exampleSamples = Inr exampleForecast" by (rule aggregate_example)
qed

text \<open>The example list satisfies the hypotheses and yields its two sorted days.\<close>

theorem aggregate_sorted_bounded_witness:
  "sorted (map date exampleForecast) \<and> length exampleForecast \<le> 6
   \<and> (\<exists>fc. aggregate exampleSamples = Inr fc)"
  using aggregate_sorted_bounded[of exampleSamples exampleForecast]
    aggregate_example example_not_throwing
  by blast

section \<open>Consuming a reset token\<close>

text \<open>
  Claim C3: a consume answers 200 only when the presented token equals the stored
  token and \<open>now \<le> expiry\<close>; then one update replaces the credential and clears token
  and expiry, and a replay with the same token answers 400. With the stored token but
  \<open>now > expiry\<close> the consume answers 400 and leaves the table unchanged. A pending
  non-empty token with a non-zero expiry that has not passed is consumed successfully
  when the password hashes. The presented token is the one the handler compares: the
  \<^verbatim>\<open>resetToken\<close> field of the body without surrounding white space.
\<close>

theorem reset_token_single_use:
  "(fst (fst (consume K rnd now db em tok pw)) = 200 \<longrightarrow>
      (\<exists>row ex h. getByEmail db em = Some row \<and> reset_token row = Some tok
          \<and> reset_expires row = Some ex \<and> now \<le> ex
          \<and> hashPassword K rnd pw = Inr h
          \<and> snd (consume K rnd now db em tok pw) =
                updateById db (uid row)
                  (\<lambda>r. r\<lparr>password_hash := h, reset_token := None, reset_expires := None\<rparr>))
      \<and> consume K' rnd' now' (snd (consume K rnd now db em tok pw)) em tok pw' =
            ((400, ErrorBody ''reset not requested''), snd (consume K rnd now db em tok pw)))
   \<and> (getByEmail db em = Some row \<and> reset_token row = Some tok
        \<and> reset_expires row = Some ex \<and> ex < now \<longrightarrow>
        fst (fst (consume K rnd now db em tok pw)) = 400
        \<and> snd (consume K rnd now db em tok pw) = db)
   \<and> (getByEmail db em = Some row \<and> reset_token row = Some tok \<and> tok \<noteq> []
        \<and> reset_expires row = Some ex \<and> ex \<noteq> 0 \<and> now \<le> ex
        \<and> hashPassword K rnd pw = Inr h \<longrightarrow>
        consume K rnd now db em tok pw =
          ((200, Success), updateById db (uid row)
             (\<lambda>r. r\<lparr>password_hash := h, reset_token := None, reset_expires := None\<rparr>)))"
proof (intro conjI impI)
  assume s: "fst (fst (consume K rnd now db em tok pw)) = 200"
  from consume_200[OF s]
  show "\<exists>row ex h. getByEmail db em = Some row \<and> reset_token row = Some tok
          \<and> reset_expires row = Some ex \<and> now \<le> ex
          \<and> hashPassword K rnd pw = Inr h
          \<and> snd (consume K rnd now db em tok pw) =
                updateById db (uid row)
                  (\<lambda>r. r\<lparr>password_hash := h, reset_token := None, reset_expires := None\<rparr>)"
    by fastforce
  from consume_replay[OF s]
  show "consume K' rnd' now' (snd (consume K rnd now db em tok pw)) em tok pw' =
            ((400, ErrorBody ''reset not requested''), snd (consume K rnd now db em tok pw))" .
next
  assume "getByEmail db em = Some row \<and> reset_token row = Some tok
        \<and> reset_expires row = Some ex \<and> ex < now"
  then have e: "fst (fst (consume K rnd now db em tok pw)) = 400
        \<and> snd (consume K rnd now db em tok pw) = db"
    using consume_expired by blast
  from e show "fst (fst (consume K rnd now db em tok pw)) = 400" by simp
  from e show "snd (consume K rnd now db em tok pw) = db" by simp
next
  assume "getByEmail db em = Some row \<and> reset_token row = Some tok \<and> tok \<noteq> []
        \<and> reset_expires row = Some ex \<and> ex \<noteq> 0 \<and> now \<le> ex
        \<and> hashPassword K rnd pw = Inr h"
  then show "consume K rnd now db em tok pw =
          ((200, Success), updateById db (uid row)
             (\<lambda>r. r\<lparr>password_hash := h, reset_token := None, reset_expires := None\<rparr>))"
    using consume_ok by blast
qed

text \<open>One successful consume, its replay, and a consume after the expiry.\<close>

theorem reset_token_single_use_witness:
  "consume exampleKdf rnd16 500 [ann] ''ann@example.com'' ''0a1b2c3d'' ''newsecret''
     = ((200, Success), [annReset])
   \<and> consume exampleKdf rnd16 501 [annReset] ''ann@example.com'' ''0a1b2c3d'' ''newsecret''
     = ((400, ErrorBody ''reset not requested''), [annReset])
   \<and> fst (fst (consume exampleKdf rnd16 1001 [ann] ''ann@example.com'' ''0a1b2c3d'' ''newsecret''))
     = 400"
proof -
  note t = reset_token_single_use[where K = exampleKdf and rnd = rnd16 and db = "[ann]"
      and em = "''ann@example.com''" and tok = "''0a1b2c3d''" and pw = "''newsecret''"
      and row = ann and ex = 1000 and K' = exampleKdf and rnd' = rnd16 and now' = 501
      and pw' = "''newsecret''"
      and h = "''pbkdf2$sha256$120000$'' @ toHex rnd16 @ ''$'' @ toHex (replicate 32 0)"]
  have ok: "consume exampleKdf rnd16 500 [ann] ''ann@example.com'' ''0a1b2c3d'' ''newsecret''
     = ((200, Success), [annReset])"
    using t[where now = 500] ann_lookup ann_fields hash_example[of "''newsecret''"]
    by (simp add: updateById_def annReset_def)
  have replay: "consume exampleKdf rnd16 501 [annReset] ''ann@example.com'' ''0a1b2c3d'' ''newsecret''
     = ((400, ErrorBody ''reset not requested''), [annReset])"
    using t[where now = 500] ok by simp
  have expired: "fst (fst (consume exampleKdf rnd16 1001 [ann] ''ann@example.com'' ''0a1b2c3d'' ''newsecret''))
     = 400"
    using t[where now = 1001] ann_lookup ann_fields by simp
  from ok replay expired show ?thesis by simp
qed

section \<open>Responses of a failing consume\<close>

text \<open>
  Claim C4, amended: every failing check answers status 400 and leaves the table
  unchanged, and the error text names the check: \<^verbatim>\<open>reset not requested\<close> when there
  is no user or no pending token and expiry, \<^verbatim>\<open>invalid token\<close> on a mismatch, and
  \<^verbatim>\<open>token expired\<close> when the token matches and \<open>now > expiry\<close>.
\<close>

theorem reset_failure_responses:
  "(\<not> (\<exists>row t ex. getByEmail db em = Some row \<and> reset_token row = Some t \<and> t \<noteq> []
          \<and> reset_expires row = Some ex \<and> ex \<noteq> 0) \<longrightarrow>
      consume K rnd now db em tok pw = ((400, ErrorBody ''reset not requested''), db))
   \<and> (getByEmail db em = Some row \<and> reset_token row = Some t \<and> t \<noteq> []
        \<and> reset_expires row = Some ex \<and> ex \<noteq> 0 \<longrightarrow>
        (t \<noteq> tok \<longrightarrow> consume K rnd now db em tok pw = ((400, ErrorBody ''invalid token''), db))
        \<and> (t = tok \<and> ex < now \<longrightarrow>
             consume K rnd now db em tok pw = ((400, ErrorBody ''token expired''), db)))"
  by (auto simp: consume_def split: option.splits)

text \<open>The three failures on a concrete table.\<close>

theorem reset_failure_responses_witness:
  "consume exampleKdf rnd16 500 [annReset] ''ann@example.com'' ''0a1b2c3d'' ''newsecret''
     = ((400, ErrorBody ''reset not requested''), [annReset])
   \<and> consume exampleKdf rnd16 500 [ann] ''ann@example.com'' ''ffffffff'' ''newsecret''
     = ((400, ErrorBody ''invalid token''), [ann])
   \<and> consume exampleKdf rnd16 1001 [ann] ''ann@example.com'' ''0a1b2c3d'' ''newsecret''
     = ((400, ErrorBody ''token expired''), [ann])"
proof -
  have l: "getByEmail [annReset] ''ann@example.com'' = Some annReset"
    "reset_token annReset = None"
    by (simp_all add: getByEmail_def annReset_def ann_def)
  have a: "consume exampleKdf rnd16 500 [annReset] ''ann@example.com'' ''0a1b2c3d'' ''newsecret''
     = ((400, ErrorBody ''reset not requested''), [annReset])"
    using reset_failure_responses[where db = "[annReset]" and em = "''ann@example.com''"
        and K = exampleKdf and rnd = rnd16 and now = 500 and tok = "''0a1b2c3d''"
        and pw = "''newsecret''"] l
    by simp
  have b: "consume exampleKdf rnd16 500 [ann] ''ann@example.com'' ''ffffffff'' ''newsecret''
     = ((400, ErrorBody ''invalid token''), [ann])"
    using reset_failure_responses[where db = "[ann]" and em = "''ann@example.com''"
        and K = exampleKdf and rnd = rnd16 and now = 500 and tok = "''ffffffff''"
        and pw = "''newsecret''" and row = ann and t = "''0a1b2c3d''" and ex = 1000]
      ann_lookup ann_fields
    by simp
  have c: "consume exampleKdf rnd16 1001 [ann] ''ann@example.com'' ''0a1b2c3d'' ''newsecret''
     = ((400, ErrorBody ''token expired''), [ann])"
    using reset_failure_responses[where db = "[ann]" and em = "''ann@example.com''"
        and K = exampleKdf and rnd = rnd16 and now = 1001 and tok = "''0a1b2c3d''"
        and pw = "''newsecret''" and row = ann and t = "''0a1b2c3d''" and ex = 1000]
      ann_lookup ann_fields
    by simp
  from a b c show ?thesis by simp
qed

text \<open>
  Claim C4 as stated fails: three failing consumes, one per check, have three
  different response bodies.
\<close>

theorem reset_failure_not_uniform_counterexample:
  "fst (consume exampleKdf rnd16 500 [ann] ''ann@example.com'' ''ffffffff'' ''newsecret'')
     = (400, ErrorBody ''invalid token'')
   \<and> fst (consume exampleKdf rnd16 1001 [ann] ''ann@example.com'' ''0a1b2c3d'' ''newsecret'')
     = (400, ErrorBody ''token expired'')
   \<and> fst (consume exampleKdf rnd16 500 [annReset] ''ann@example.com'' ''0a1b2c3d'' ''newsecret'')
     = (400, ErrorBody ''reset not requested'')"
  by (simp add: consume_def ann_lookup ann_fields getByEmail_def annReset_def ann_def)

section \<open>Rounding of the daily temperatures\<close>

text \<open>
  Claim C5, amended: each day's minimum and maximum are \<^verbatim>\<open>Math.round(x * 10) / 10\<close>
  of the least minimum candidate and the greatest maximum candidate of its date. When
  \<^verbatim>\<open>x * 10\<close> is the finite number \<open>p\<close>, the result is the binary64 value of \<open>n / 10\<close>
  for the integer \<open>n\<close> nearest to \<open>p\<close>, and for \<open>p\<close> halfway between two integers
  \<open>n\<close> is the upper one, \<open>p + 1/2\<close>, whatever the sign of \<open>p\<close>.
\<close>

theorem aggregate_rounds_half_up:
  "(aggregate xs = Inr fc \<longrightarrow>
      (\<forall>day \<in> set fc.
         min_f day = round1 (Min (set (map tminOf (sameDay (date day) xs))))
         \<and> max_f day = round1 (Max (set (map tmaxOf (sameDay (date day) xs))))))
   \<and> (jsTimes x 10 = Finite p \<longrightarrow>
        round1 x = toDouble (of_int \<lfloor>p + 1 / 2\<rfloor> / 10)
        \<and> \<bar>of_int \<lfloor>p + 1 / 2\<rfloor> - p\<bar> \<le> 1 / 2
        \<and> (p - of_int \<lfloor>p\<rfloor> = 1 / 2 \<longrightarrow> of_int \<lfloor>p + 1 / 2\<rfloor> = p + 1 / 2))"
proof (intro conjI impI ballI)
  fix day
  assume a: "aggregate xs = Inr fc" and d: "day \<in> set fc"
  from aggregate_day[OF a d]
  have e: "day = forecastDay (date day) (bucketOf (date day) xs)" by simp
  show "min_f day = round1 (Min (set (map tminOf (sameDay (date day) xs))))"
    by (subst e) (simp add: forecastDay_def bucketOf_def)
  show "max_f day = round1 (Max (set (map tmaxOf (sameDay (date day) xs))))"
    by (subst e) (simp add: forecastDay_def bucketOf_def)
next
  assume t: "jsTimes x 10 = Finite p"
  show "round1 x = toDouble (of_int \<lfloor>p + 1 / 2\<rfloor> / 10)"
    by (simp add: round1_def t)
  show "\<bar>of_int \<lfloor>p + 1 / 2\<rfloor> - p\<bar> \<le> 1 / 2" by (rule mathRound_props(2))
next
  assume "p - of_int \<lfloor>p\<rfloor> = 1 / 2"
  with mathRound_props(3)[of p] show "of_int \<lfloor>p + 1 / 2\<rfloor> = p + 1 / 2" by blast
qed

text \<open>
  A day with the readings -1.25 and 1.25: the products -12.5 and 12.5 are rounded to
  -12 and 13, and the day's minimum and maximum are the binary64 values of -1.2 and 1.3.
\<close>

theorem aggregate_rounds_half_up_witness:
  "min_f (hd coldForecast) = round1 (- 5 / 4) \<and> max_f (hd coldForecast) = round1 (5 / 4)
   \<and> round1 (- 5 / 4) = toDouble (- 12 / 10) \<and> round1 (5 / 4) = toDouble (13 / 10)"
proof -
  have h: "hd coldForecast \<in> set coldForecast" "date (hd coldForecast) = ''2024-01-01''"
    by (simp_all add: coldForecast_def)
  have t1: "jsTimes (- 5 / 4) 10 = Finite (- 25 / 2)"
    and t2: "jsTimes (5 / 4) 10 = Finite (25 / 2)"
    by (simp_all add: jsTimes_def toDouble_25_2)
  have f: "\<lfloor>- 25 / 2 + 1 / 2 :: rat\<rfloor> = - 12" "\<lfloor>25 / 2 + 1 / 2 :: rat\<rfloor> = 13"
    by simp_all
  from aggregate_rounds_half_up[of coldSamples coldForecast "- 5 / 4" "- 25 / 2"]
    aggregate_cold h(1)
  have "min_f (hd coldForecast) =
          round1 (Min (set (map tminOf (sameDay (date (hd coldForecast)) coldSamples))))"
    "max_f (hd coldForecast) =
          round1 (Max (set (map tmaxOf (sameDay (date (hd coldForecast)) coldSamples))))"
    by blast+
  then have m: "min_f (hd coldForecast) = round1 (- 5 / 4)"
    "max_f (hd coldForecast) = round1 (5 / 4)"
    by (simp_all add: h(2) sameDay_cold cold_temps)
  from aggregate_rounds_half_up[of coldSamples coldForecast "- 5 / 4" "- 25 / 2"] t1
  have r1: "round1 (- 5 / 4) = toDouble (- 12 / 10)" by (simp add: f)
  from aggregate_rounds_half_up[of coldSamples coldForecast "5 / 4" "25 / 2"] t2
  have r2: "round1 (5 / 4) = toDouble (13 / 10)" by (simp add: f)
  from m r1 r2 show ?thesis by blast
qed

text \<open>
  Claim C5 as stated fails: the minimum -1.25 is rounded to the binary64 value of
  -1.2, which is above -1.25, not to that of -1.3.
\<close>

theorem round_negative_tie_counterexample:
  "map tminOf coldSamples = [- 5 / 4, 5 / 4]
   \<and> aggregate coldSamples =
       Inr [\<lparr>date = ''2024-01-01'',
             min_f = Finite (- 5404319552844595 / 4503599627370496),
             max_f = Finite (5854679515581645 / 4503599627370496),
             description_f = [], icon_f = []\<rparr>]
   \<and> (- 5 / 4 :: rat) < - 5404319552844595 / 4503599627370496
   \<and> \<bar>- 5404319552844595 / 4503599627370496 - (- 12 / 10 :: rat)\<bar> < 1 / 10 ^ 15"
  using aggregate_cold cold_temps(1) by (simp add: coldForecast_def)

section \<open>Description and icon of a day\<close>

text \<open>
  Claim C6, amended: a day's description is the first non-empty description among
  the samples of its date, in input order, and empty when there is none; its icon is
  the first non-empty icon among them, chosen independently of the description.
\<close>

theorem aggregate_first_nonempty:
  "aggregate xs = Inr fc \<longrightarrow>
     (\<forall>day \<in> set fc.
        description_f day =
          (case filter (\<lambda>d. d \<noteq> []) (map descOf (sameDay (date day) xs)) of
             [] \<Rightarrow> [] | d # r \<Rightarrow> d)
        \<and> icon_f day =
          (case filter (\<lambda>i. i \<noteq> []) (map iconOf (sameDay (date day) xs)) of
             [] \<Rightarrow> [] | i # r \<Rightarrow> i))"
proof (intro impI ballI)
  fix day
  assume a: "aggregate xs = Inr fc" and d: "day \<in> set fc"
  from aggregate_day[OF a d]
  have e: "day = forecastDay (date day) (bucketOf (date day) xs)" by simp
  have "description_f day =
          (case filter (\<lambda>d. d \<noteq> []) (map descOf (sameDay (date day) xs)) of
             [] \<Rightarrow> [] | d # r \<Rightarrow> d)"
    by (subst e) (simp add: forecastDay_def bucketOf_def)
  moreover have "icon_f day =
          (case filter (\<lambda>i. i \<noteq> []) (map iconOf (sameDay (date day) xs)) of
             [] \<Rightarrow> [] | i # r \<Rightarrow> i)"
    by (subst e) (simp add: forecastDay_def bucketOf_def)
  ultimately show "description_f day =
          (case filter (\<lambda>d. d \<noteq> []) (map descOf (sameDay (date day) xs)) of
             [] \<Rightarrow> [] | d # r \<Rightarrow> d)
        \<and> icon_f day =
          (case filter (\<lambda>i. i \<noteq> []) (map iconOf (sameDay (date day) xs)) of
             [] \<Rightarrow> [] | i # r \<Rightarrow> i)" by simp
qed

text \<open>Three samples of one date with descriptions and icons that start late.\<close>

theorem aggregate_first_nonempty_witness:
  "description_f (hd lateForecast) =
     (case filter (\<lambda>d. d \<noteq> []) (map descOf lateDescription) of [] \<Rightarrow> [] | d # r \<Rightarrow> d)
   \<and> icon_f (hd lateForecast) =
     (case filter (\<lambda>i. i \<noteq> []) (map iconOf lateDescription) of [] \<Rightarrow> [] | i # r \<Rightarrow> i)"
proof -
  have h: "hd lateForecast \<in> set lateForecast" "date (hd lateForecast) = ''2024-01-01''"
    by (simp_all add: lateForecast_def)
  from aggregate_first_nonempty[of lateDescription lateForecast] aggregate_late h(1)
  have "description_f (hd lateForecast) =
          (case filter (\<lambda>d. d \<noteq> [])
             (map descOf (sameDay (date (hd lateForecast)) lateDescription)) of
             [] \<Rightarrow> [] | d # r \<Rightarrow> d)
        \<and> icon_f (hd lateForecast) =
          (case filter (\<lambda>i. i \<noteq> [])
             (map iconOf (sameDay (date (hd lateForecast)) lateDescription)) of
             [] \<Rightarrow> [] | i # r \<Rightarrow> i)"
    by blast
  then show ?thesis unfolding h(2) sameDay_late .
qed

text \<open>
  Claim C6 as stated fails: the first sample of the date has neither description nor
  icon, and the day takes its description from the second sample and its icon from the
  third.
\<close>

theorem first_sample_description_counterexample:
  "aggregate lateDescription = Inr lateForecast
   \<and> map descOf lateDescription = [[], ''light rain'', ''clear sky'']
   \<and> map iconOf lateDescription = [[], [], ''01d'']
   \<and> map description_f lateForecast = [''light rain'']
   \<and> map icon_f lateForecast = [''01d'']"
  by (simp add: aggregate_late) (simp add: lateDescription_def lateForecast_def descOf_def iconOf_def orEmpty_def)

section \<open>Requesting a password reset\<close>

text \<open>
  Claim C7: for a \<^verbatim>\<open>POST\<close> with a non-empty normalised email the status is 200
  whether or not the email is registered. The body differs: \<^verbatim>\<open>{success: true}\<close> for
  an unregistered email, and \<^verbatim>\<open>{success: true, resetToken, expires}\<close> for a registered
  one.
\<close>

theorem request_reset_response:
  "meth req = ''POST'' \<and> toLowerCase (trim (orEmpty bodyEmail)) \<noteq> [] \<longrightarrow>
     fst (fst (requestReset db rnd now req bodyEmail)) = 200
     \<and> (getByEmail db (toLowerCase (trim (orEmpty bodyEmail))) = None \<longrightarrow>
          requestReset db rnd now req bodyEmail = ((200, Success), db))
     \<and> (getByEmail db (toLowerCase (trim (orEmpty bodyEmail))) \<noteq> None \<longrightarrow>
          fst (requestReset db rnd now req bodyEmail)
            = (200, SuccessReset (makeToken rnd) (now + 900000)))"
  by (auto simp: requestReset_def Let_def split: option.splits)

text \<open>A registered and an unregistered email on the same table.\<close>

theorem request_reset_response_witness:
  "fst (requestReset [ann] rnd16 5000 postReq (Some '' Ann@Example.com''))
     = (200, SuccessReset ''5a00c31e77900df248b621ea39048c6f'' 905000)
   \<and> requestReset [ann] rnd16 5000 postReq (Some ''bob@example.com'') = ((200, Success), [ann])"
proof -
  have m: "meth postReq = ''POST''" by (simp add: postReq_def)
  have tk: "makeToken rnd16 = ''5a00c31e77900df248b621ea39048c6f''"
    by (simp add: makeToken_def rnd16_def toHex_def hexByte_def hexDigit_def)
  have nb: "getByEmail [ann] ''bob@example.com'' = None"
    by (simp add: getByEmail_def ann_def)
  have a: "fst (requestReset [ann] rnd16 5000 postReq (Some '' Ann@Example.com''))
     = (200, SuccessReset ''5a00c31e77900df248b621ea39048c6f'' 905000)"
    using request_reset_response[of postReq "Some '' Ann@Example.com''" "[ann]" rnd16 5000]
      m norm_ann ann_lookup tk by simp
  have b: "requestReset [ann] rnd16 5000 postReq (Some ''bob@example.com'') = ((200, Success), [ann])"
    using request_reset_response[of postReq "Some ''bob@example.com''" "[ann]" rnd16 5000]
      m norm_bob nb by simp
  from a b show ?thesis by simp
qed

section \<open>Session registry\<close>

text \<open>
  Claim C8: for every user id, resolving the bearer token just issued for it yields
  that id; after a logout with a token, resolving that token answers 401; a logout whose
  token has no session leaves the registry unchanged and answers 200, and so does a
  second logout. A user id is a row id of the column
  \<^verbatim>\<open>id INTEGER PRIMARY KEY AUTOINCREMENT\<close>, which is at least 1: the register handler
  issues a session for \<^verbatim>\<open>Number(info.lastInsertRowid)\<close> and the login handler for
  \<^verbatim>\<open>row.id\<close>. The token of \<^verbatim>\<open>makeToken()\<close> renders 24 random bytes, so \<open>rnd\<close> is
  not empty.
\<close>

theorem session_registry:
  "(1 \<le> userId \<and> rnd \<noteq> [] \<longrightarrow>
      requireAuth (snd (issue ss rnd userId))
        \<lparr>meth = m, authorization = Some (''Bearer '' @ fst (issue ss rnd userId))\<rparr> = Inr userId)
   \<and> (meth req = ''POST'' \<and> getAuthToken req' = getAuthToken req \<longrightarrow>
        requireAuth (snd (logout ss req)) req' = Inl (401, ErrorBody ''Unauthorized''))
   \<and> (meth req = ''POST'' \<and> ss (getAuthToken req) = None \<longrightarrow>
        logout ss req = ((200, Success), ss))
   \<and> (meth req = ''POST'' \<longrightarrow>
        fst (logout ss req) = (200, Success)
        \<and> logout (snd (logout ss req)) req = ((200, Success), snd (logout ss req)))"
proof (intro conjI impI)
  assume "1 \<le> userId \<and> rnd \<noteq> []"
  then have "userId \<noteq> 0" "rnd \<noteq> []" by simp_all
  then show "requireAuth (snd (issue ss rnd userId))
        \<lparr>meth = m, authorization = Some (''Bearer '' @ fst (issue ss rnd userId))\<rparr> = Inr userId"
    by (rule requireAuth_issue)
next
  assume "meth req = ''POST'' \<and> getAuthToken req' = getAuthToken req"
  then show "requireAuth (snd (logout ss req)) req' = Inl (401, ErrorBody ''Unauthorized'')"
    using requireAuth_logout by blast
next
  assume "meth req = ''POST'' \<and> ss (getAuthToken req) = None"
  then show "logout ss req = ((200, Success), ss)"
    using logout_absent by blast
next
  assume p: "meth req = ''POST''"
  then show "fst (logout ss req) = (200, Success)" by (simp add: logout_def Let_def)
  from p show "logout (snd (logout ss req)) req = ((200, Success), snd (logout ss req))"
    by (rule logout_twice)
qed

text \<open>Issue and resolve for the user id 1, and logout on a held and on an empty registry.\<close>

theorem session_registry_witness:
  "requireAuth (snd (issue Map.empty rnd24 1))
     \<lparr>meth = ''GET'', authorization = Some (''Bearer '' @ fst (issue Map.empty rnd24 1))\<rparr>
     = Inr 1
   \<and> requireAuth (snd (logout sess1 logoutReq)) putReq = Inl (401, ErrorBody ''Unauthorized'')
   \<and> logout Map.empty logoutReq = ((200, Success), Map.empty)"
proof -
  have r: "rnd24 \<noteq> []" by (simp add: rnd24_def)
  have m: "meth logoutReq = ''POST''" by (simp add: logoutReq_def)
  have g: "getAuthToken putReq = getAuthToken logoutReq"
    by (simp add: getAuthToken_def putReq_def logoutReq_def)
  have a: "requireAuth (snd (issue Map.empty rnd24 1))
     \<lparr>meth = ''GET'', authorization = Some (''Bearer '' @ fst (issue Map.empty rnd24 1))\<rparr>
     = Inr 1"
    using session_registry[where userId = 1 and rnd = rnd24 and ss = Map.empty
        and m = "''GET''" and req = logoutReq and req' = putReq] r
    by simp
  have b: "requireAuth (snd (logout sess1 logoutReq)) putReq = Inl (401, ErrorBody ''Unauthorized'')"
    using session_registry[where userId = 1 and rnd = rnd24 and ss = sess1
        and m = "''GET''" and req = logoutReq and req' = putReq] m g
    by blast
  have c: "logout Map.empty logoutReq = ((200, Success), Map.empty)"
    using session_registry[where userId = 1 and rnd = rnd24 and ss = Map.empty
        and m = "''GET''" and req = logoutReq and req' = putReq] m
    by simp
  from a b c show ?thesis by simp
qed

section \<open>Theme preference\<close>

text \<open>
  Claim C9: for an authenticated \<^verbatim>\<open>PUT /me/theme\<close>, a missing or empty theme field
  answers 200 with the theme \<^verbatim>\<open>system\<close> and stores \<^verbatim>\<open>system\<close> on the user's row; the
  status is 400 exactly when the field is present, non-empty and none of
  \<^verbatim>\<open>system\<close>, \<^verbatim>\<open>light\<close>, \<^verbatim>\<open>dark\<close>.
\<close>

theorem theme_default_system:
  assumes "requireAuth ss req = Inr userId" "meth req = ''PUT''"
  shows "(bodyTheme = None \<or> bodyTheme = Some [] \<longrightarrow>
            themeHandler ss db req bodyTheme =
              ((200, SuccessTheme ''system''), updateById db userId (\<lambda>r. r\<lparr>theme := ''system''\<rparr>))
            \<and> (\<forall>u \<in> set (snd (themeHandler ss db req bodyTheme)). uid u = userId \<longrightarrow> theme u = ''system''))
       \<and> (fst (fst (themeHandler ss db req bodyTheme)) = 400 \<longleftrightarrow>
            (\<exists>t. bodyTheme = Some t \<and> t \<noteq> [] \<and> t \<notin> set [''system'', ''light'', ''dark'']))"
proof (intro conjI impI)
  assume b: "bodyTheme = None \<or> bodyTheme = Some []"
  then show e: "themeHandler ss db req bodyTheme =
      ((200, SuccessTheme ''system''), updateById db userId (\<lambda>r. r\<lparr>theme := ''system''\<rparr>))"
    unfolding themeHandler_authed[OF assms] by (auto simp: Let_def)
  show "\<forall>u \<in> set (snd (themeHandler ss db req bodyTheme)). uid u = userId \<longrightarrow> theme u = ''system''"
    unfolding e snd_conv using updateById_theme by blast
next
  show "fst (fst (themeHandler ss db req bodyTheme)) = 400 \<longleftrightarrow>
            (\<exists>t. bodyTheme = Some t \<and> t \<noteq> [] \<and> t \<notin> set [''system'', ''light'', ''dark''])"
  proof (cases bodyTheme)
    case None
    then show ?thesis unfolding themeHandler_authed[OF assms] by (simp add: Let_def)
  next
    case (Some t)
    show ?thesis
    proof (cases "t = []")
      case True
      with Some show ?thesis unfolding themeHandler_authed[OF assms] by (simp add: Let_def)
    next
      case False
      with Some show ?thesis unfolding themeHandler_authed[OF assms] Let_def
        by (cases "t \<in> set [''system'', ''light'', ''dark'']") simp_all
    qed
  qed
qed

text \<open>A request without a theme field, and one with the theme \<^verbatim>\<open>blue\<close>.\<close>

theorem theme_default_system_witness:
  "themeHandler sess1 [ann] putReq None =
     ((200, SuccessTheme ''system''), [ann\<lparr>theme := ''system''\<rparr>])
   \<and> fst (fst (themeHandler sess1 [ann] putReq (Some ''blue''))) = 400"
proof -
  have m: "meth putReq = ''PUT''" by (simp add: putReq_def)
  have u: "uid ann = 1" by (simp add: ann_def)
  from theme_default_system[OF putReq_auth m, of None "[ann]"]
  have "themeHandler sess1 [ann] putReq None =
     ((200, SuccessTheme ''system''), [ann\<lparr>theme := ''system''\<rparr>])"
    by (simp add: updateById_def u)
  moreover from theme_default_system[OF putReq_auth m, of "Some ''blue''" "[ann]"]
  have "fst (fst (themeHandler sess1 [ann] putReq (Some ''blue''))) = 400"
    by simp
  ultimately show ?thesis by simp
qed

section \<open>Samples without a timestamp\<close>

text \<open>
  Claim C10: the samples whose \<^verbatim>\<open>dt_txt\<close> is absent or empty can be removed from
  the list without changing the result of the aggregation, and a list of such samples
  only yields the empty forecast.
\<close>

theorem aggregate_skips_undated:
  "aggregate (filter (\<lambda>s. dt_txt s \<noteq> None \<and> dt_txt s \<noteq> Some []) xs) = aggregate xs
   \<and> ((\<forall>s \<in> set xs. dt_txt s = None \<or> dt_txt s = Some []) \<longrightarrow> aggregate xs = Inr [])"
proof (intro conjI impI)
  show f: "aggregate (filter (\<lambda>s. dt_txt s \<noteq> None \<and> dt_txt s \<noteq> Some []) xs) = aggregate xs"
    by (simp only: aggregate_def addSamples_filter)
  assume "\<forall>s \<in> set xs. dt_txt s = None \<or> dt_txt s = Some []"
  then have "filter (\<lambda>s. dt_txt s \<noteq> None \<and> dt_txt s \<noteq> Some []) xs = []"
    by (auto simp: filter_empty_conv)
  with f have "aggregate xs = aggregate []" by simp
  then show "aggregate xs = Inr []" by (simp add: aggregate_def)
qed

text \<open>Two undated samples, alone and in front of the two-day example.\<close>

theorem aggregate_skips_undated_witness:
  "aggregate undated = Inr []
   \<and> aggregate (undated @ exampleSamples) = Inr exampleForecast"
proof -
  have u: "\<forall>s \<in> set undated. dt_txt s = None \<or> dt_txt s = Some []"
    by (simp add: undated_def)
  have f: "filter (\<lambda>s. dt_txt s \<noteq> None \<and> dt_txt s \<noteq> Some []) (undated @ exampleSamples)
             = exampleSamples"
    by (simp add: undated_def exampleSamples_def reading_def)
  from aggregate_skips_undated[of undated] u have a: "aggregate undated = Inr []" by blast
  from aggregate_skips_undated[of "undated @ exampleSamples"]
  have "aggregate (undated @ exampleSamples) = aggregate exampleSamples"
    unfolding f by simp
  with a aggregate_example show ?thesis by simp
qed

end
